theory Spec2Isabelle
  imports Complex_Main
begin

section \<open>Data model of the parallax scroll listener\<close>

text \<open>
  The embedding follows \<^verbatim>\<open>src/libs/ParallaxScrollListener.js\<close>. JavaScript numbers are
  read as exact real numbers (no rounding, no NaN, no infinities); wherever the source
  divides, the theorems below say which divisor they need to be non-zero. A JavaScript
  object is a record of optional fields (\<open>None\<close>: the key is absent or undefined), the
  element objects live in a store and the registry holds their references, an exception
  is the \<open>Inl\<close> of a result that is paired with the state the throw leaves behind.
\<close>

type_synonym node = nat
type_synonym addr = nat

datatype error = UnitsMismatch | TypeError

text \<open>The \<^verbatim>\<open>{value, unit}\<close> object that the offset parser returns.\<close>

record offset =
  ovalue :: real
  ounit :: string

text \<open>\<^verbatim>\<open>element.props\<close>: the configuration the caller supplies.\<close>

record props =
  disabled :: bool
  slowerScrollRate :: bool
  offsetYMin :: string
  offsetYMax :: string
  offsetXMin :: string
  offsetXMax :: string

text \<open>\<^verbatim>\<open>element.offsets\<close>, written by \<^verbatim>\<open>_setupOffsets\<close>.\<close>

record offsets =
  xUnit :: string
  yUnit :: string
  yMin :: offset
  yMax :: offset
  xMin :: offset
  xMax :: offset

text \<open>\<^verbatim>\<open>element.attributes\<close>, written by \<^verbatim>\<open>_cacheAttributes\<close>.\<close>

record attributes =
  attr_top :: real
  attr_bottom :: real
  elHeight :: real
  elWidth :: real
  yMaxPx :: real
  yMinPx :: real
  xMaxPx :: real
  xMinPx :: real
  totalDist :: real
  windowHeight :: real

text \<open>
  An element object. The listener reads and writes the keys \<^verbatim>\<open>id\<close>, \<^verbatim>\<open>props\<close>,
  \<^verbatim>\<open>_outer\<close>, \<^verbatim>\<open>_inner\<close>, \<^verbatim>\<open>offsets\<close> and \<^verbatim>\<open>attributes\<close>; an object that
  \<^verbatim>\<open>updateElement\<close> builds from the options alone may lack any of them.
\<close>

record element =
  el_id :: "int option"
  el_props :: "props option"
  el_outer :: "node option"
  el_inner :: "node option"
  el_offsets :: "offsets option"
  el_attributes :: "attributes option"

text \<open>
  The options object of \<^verbatim>\<open>createElement\<close> and \<^verbatim>\<open>updateElement\<close>: any subset of the
  keys \<^verbatim>\<open>id\<close>, \<^verbatim>\<open>props\<close>, \<^verbatim>\<open>_outer\<close>, \<^verbatim>\<open>_inner\<close>.
\<close>

record options =
  opt_id :: "int option"
  opt_props :: "props option"
  opt_outer :: "node option"
  opt_inner :: "node option"

text \<open>What the listener reads of a DOM node: its bounding rectangle and its size.\<close>

record geometry =
  rect_top :: real
  rect_bottom :: real
  offsetHeight :: real
  offsetWidth :: real

text \<open>
  The \<^verbatim>\<open>style.cssText\<close> of a node: untouched, the text \<^verbatim>\<open>_setParallaxStyles\<close> writes
  (\<^verbatim>\<open>translate3d(x xUnit, y yUnit, 0)\<close>), or the text \<^verbatim>\<open>_resetStyles\<close> writes.
\<close>

datatype cssText = Untouched | ParallaxStyles real string real string | ResetStyles

text \<open>
  The closure variables of \<^verbatim>\<open>ParallaxScrollListener\<close> (\<open>elements\<close>, \<open>scrollY\<close>,
  \<open>id_count\<close> for \<^verbatim>\<open>id\<close>, \<open>ticking\<close>, \<open>scrollDown\<close>), the store of element objects, and
  the browser: the window, the layout and inline style of the DOM nodes, and the number
  of animation frames requested and not yet run. \<open>elements_neg1\<close> is the property
  \<^verbatim>\<open>"-1"\<close> of the array object \<^verbatim>\<open>elements\<close>, which is not one of its entries.
\<close>

record state =
  elements :: "addr list"
  elements_neg1 :: "addr option"
  heap :: "addr \<Rightarrow> element"
  next_addr :: addr
  scrollY :: real
  id_count :: int
  ticking :: bool
  scrollDown :: "bool option"
  frames :: nat
  window_scrollY :: real
  window_innerHeight :: real
  html_clientHeight :: real
  layout :: "node \<Rightarrow> geometry"
  style :: "node \<Rightarrow> cssText"

type_synonym 'a result = "(error + 'a) \<times> state"

section \<open>The helpers imported from \<^verbatim>\<open>utils/index\<close>\<close>

text \<open>
  Modelled from the spec: \<^verbatim>\<open>scaleBetween\<close> of \<^verbatim>\<open>utils/index\<close>, which is not among the
  sources. The spec says that the percent is linearly rescaled from the old range into the
  new one; the arguments are in the order of the call sites
  \<^verbatim>\<open>scaleBetween(percentMoved, newMin, newMax, 0, 100)\<close>.
\<close>

definition scaleBetween :: "real \<Rightarrow> real \<Rightarrow> real \<Rightarrow> real \<Rightarrow> real \<Rightarrow> real" where
  "scaleBetween v newMin newMax oldMin oldMax =
     (newMax - newMin) * (v - oldMin) / (oldMax - oldMin) + newMin"

text \<open>
  \<^verbatim>\<open>parseValueAndUnit\<close> of \<^verbatim>\<open>utils/index\<close> is not among the sources either. Every
  function below that calls it takes it as its first argument, so that the theorems hold
  for every parser. The spec gives it no error of its own.
\<close>

type_synonym parser = "string \<Rightarrow> offset"

text \<open>
  Modelled from the spec: a parser for the offset strings the spec describes
  (\<open>a numeric value and an optional unit\<close>, like \<^verbatim>\<open>-20%\<close> or \<^verbatim>\<open>30px\<close>): an optional
  sign, decimal digits, an optional fraction, and the rest of the string as the unit.
  It is used to run the model on concrete configurations only.
\<close>

fun readDigits :: "string \<Rightarrow> nat \<Rightarrow> nat \<Rightarrow> (nat \<times> nat) \<times> string" where
  "readDigits [] n k = ((n, k), [])"
| "readDigits (c # cs) n k =
     (if c \<in> set ''0123456789''
      then readDigits cs (10 * n + (of_char c - 48)) (Suc k)
      else ((n, k), c # cs))"

definition parseValueAndUnit :: parser where
  "parseValueAndUnit str =
     (let (neg, s1) = (case str of
                         [] \<Rightarrow> (False, [])
                       | c # cs \<Rightarrow> if c = CHR ''-'' then (True, cs)
                                   else if c = CHR ''+'' then (False, cs) else (False, c # cs));
          ((n, _), s2) = readDigits s1 0 0;
          ((f, k), s3) = (case s2 of
                            [] \<Rightarrow> ((0, 0), [])
                          | c # cs \<Rightarrow> if c = CHR ''.'' then readDigits cs 0 0 else ((0, 0), c # cs));
          v = real n + real f / 10 ^ k
      in \<lparr>ovalue = (if neg then - v else v), ounit = s3\<rparr>)"

section \<open>The private functions\<close>

text \<open>\<^verbatim>\<open>_createID\<close>: increments the counter and returns it.\<close>

definition createID :: "state \<Rightarrow> int \<times> state" where
  "createID st = (id_count st + 1, st\<lparr>id_count := id_count st + 1\<rparr>)"

text \<open>
  \<^verbatim>\<open>_setupOffsets\<close>: parses the four offset props, throws when the units of an axis
  differ, and stores the result on the element. As in the source, the constant \<open>xMin\<close> is
  the parse of \<^verbatim>\<open>offsetXMax\<close> and \<open>xMax\<close> the parse of \<^verbatim>\<open>offsetXMin\<close>. The empty unit is
  the falsy one of \<^verbatim>\<open>unit || '%'\<close>.
\<close>

definition setupOffsets :: "parser \<Rightarrow> element \<Rightarrow> error + element" where
  "setupOffsets parse element =
     (case el_props element of
        None \<Rightarrow> Inl TypeError
      | Some p \<Rightarrow>
          (let yMin' = parse (offsetYMin p);
               yMax' = parse (offsetYMax p);
               xMin' = parse (offsetXMax p);
               xMax' = parse (offsetXMin p)
           in if ounit xMin' \<noteq> ounit xMax' \<or> ounit yMin' \<noteq> ounit yMax'
              then Inl UnitsMismatch
              else Inr (element\<lparr>el_offsets := Some
                     \<lparr>xUnit = (if ounit xMin' = [] then ''%'' else ounit xMin'),
                      yUnit = (if ounit yMin' = [] then ''%'' else ounit yMin'),
                      yMin = yMin', yMax = yMax', xMin = xMin', xMax = xMax'\<rparr>\<rparr>)))"

text \<open>
  \<^verbatim>\<open>_cacheAttributes\<close>: reads the layout of \<^verbatim>\<open>element._outer\<close> and the window once and
  stores the derived geometry on the element.
\<close>

definition cacheAttributes :: "state \<Rightarrow> element \<Rightarrow> error + element" where
  "cacheAttributes st element =
     (case el_offsets element of
        None \<Rightarrow> Inl TypeError
      | Some ofs \<Rightarrow>
     (case el_props element of
        None \<Rightarrow> Inl TypeError
      | Some p \<Rightarrow>
     (case el_outer element of
        None \<Rightarrow> Inl TypeError
      | Some el \<Rightarrow>
          (let rect = layout st el;
               windowHeight' = (if window_innerHeight st \<noteq> 0 then window_innerHeight st
                                else html_clientHeight st);
               elHeight' = offsetHeight rect;
               elWidth' = offsetWidth rect;
               scrollY' = window_scrollY st;
               yPercent = (ounit (yMax ofs) = ''%'' \<or> ounit (yMin ofs) = ''%'');
               xPercent = (ounit (xMax ofs) = ''%'' \<or> ounit (xMin ofs) = ''%'');
               h100 = elHeight' / 100;
               yMaxPx' = (if yPercent then ovalue (yMax ofs) * h100 else ovalue (yMax ofs));
               yMinPx' = (if yPercent then ovalue (yMin ofs) * h100 else ovalue (yMin ofs));
               w100 = elWidth' / 100;
               xMaxPx' = (if xPercent then ovalue (xMax ofs) * w100 else ovalue (xMax ofs));
               xMinPx' = (if xPercent then ovalue (xMin ofs) * w100 else ovalue (xMin ofs));
               top' = rect_top rect + scrollY'
                        + (if slowerScrollRate p then yMinPx' else yMaxPx' * - 1);
               bottom' = rect_bottom rect + scrollY'
                        + (if slowerScrollRate p then yMaxPx' else yMinPx' * - 1);
               totalDist' = windowHeight' + (elHeight' + \<bar>yMinPx'\<bar> + yMaxPx')
           in Inr (element\<lparr>el_attributes := Some
                \<lparr>attr_top = top', attr_bottom = bottom', elHeight = elHeight',
                 elWidth = elWidth', yMaxPx = yMaxPx', yMinPx = yMinPx', xMaxPx = xMaxPx',
                 xMinPx = xMinPx', totalDist = totalDist', windowHeight = windowHeight'\<rparr>\<rparr>)))))"

text \<open>\<^verbatim>\<open>_isElementInView\<close>, with the tracked scroll position of the listener.\<close>

definition isElementInView :: "state \<Rightarrow> element \<Rightarrow> error + bool" where
  "isElementInView st element =
     (case el_attributes element of
        None \<Rightarrow> Inl TypeError
      | Some a \<Rightarrow>
          (let top' = attr_top a - scrollY st;
               bottom' = attr_bottom a - scrollY st;
               topInView = (top' \<ge> 0 \<and> top' \<le> windowHeight a);
               bottomInView = (bottom' \<ge> 0 \<and> bottom' \<le> windowHeight a);
               covering = (top' \<le> 0 \<and> bottom' \<ge> windowHeight a)
           in Inr (topInView \<or> bottomInView \<or> covering)))"

text \<open>The constant \<^verbatim>\<open>percentMoved\<close> of \<^verbatim>\<open>_setParallaxStyles\<close>.\<close>

definition percentMoved :: "real \<Rightarrow> attributes \<Rightarrow> real" where
  "percentMoved scrollY' a =
     (let top' = attr_top a - scrollY'
      in (top' * - 1 + windowHeight a) / totalDist a * 100)"

text \<open>\<^verbatim>\<open>_setParallaxStyles\<close>: writes the inline style of \<^verbatim>\<open>element._inner\<close>.\<close>

definition setParallaxStyles :: "element \<Rightarrow> state \<Rightarrow> error + state" where
  "setParallaxStyles element st =
     (case el_attributes element of
        None \<Rightarrow> Inl TypeError
      | Some a \<Rightarrow>
     (case el_props element of
        None \<Rightarrow> Inl TypeError
      | Some p \<Rightarrow>
     (case el_offsets element of
        None \<Rightarrow> Inl TypeError
      | Some ofs \<Rightarrow>
          (let pm = percentMoved (scrollY st) a;
               x = (if slowerScrollRate p
                    then scaleBetween pm (ovalue (xMin ofs)) (ovalue (xMax ofs)) 0 100
                    else scaleBetween pm (ovalue (xMax ofs)) (ovalue (xMin ofs)) 0 100);
               y = (if slowerScrollRate p
                    then scaleBetween pm (ovalue (yMin ofs)) (ovalue (yMax ofs)) 0 100
                    else scaleBetween pm (ovalue (yMax ofs)) (ovalue (yMin ofs)) 0 100)
           in (case el_inner element of
                 None \<Rightarrow> Inl TypeError
               | Some el \<Rightarrow>
                   Inr (st\<lparr>style := (style st)
                          (el := ParallaxStyles x (xUnit ofs) y (yUnit ofs))\<rparr>))))))"

text \<open>
  \<^verbatim>\<open>elements.forEach(callback)\<close>: the callback runs on every entry in order; a throw
  ends the iteration and leaves the state as it is at the throw.
\<close>

fun forEach :: "(addr \<Rightarrow> state \<Rightarrow> unit result) \<Rightarrow> addr list \<Rightarrow> state \<Rightarrow> unit result" where
  "forEach f [] st = (Inr (), st)"
| "forEach f (a # as) st =
     (case f a st of
        (Inl e, st') \<Rightarrow> (Inl e, st')
      | (Inr _, st') \<Rightarrow> forEach f as st')"

text \<open>The callback of \<^verbatim>\<open>_updateElementPositions\<close>, on the element object at \<open>a\<close>.\<close>

definition positionElement :: "addr \<Rightarrow> state \<Rightarrow> unit result" where
  "positionElement a st =
     (case el_props (heap st a) of
        None \<Rightarrow> (Inl TypeError, st)
      | Some p \<Rightarrow>
          if disabled p then (Inr (), st)
          else (case isElementInView st (heap st a) of
                  Inl e \<Rightarrow> (Inl e, st)
                | Inr isInView \<Rightarrow>
                    (case (if isInView then setParallaxStyles (heap st a) st else Inr st) of
                       Inl e \<Rightarrow> (Inl e, st)
                     | Inr st' \<Rightarrow> (Inr (), st'\<lparr>ticking := False\<rparr>))))"

definition updateElementPositions :: "state \<Rightarrow> unit result" where
  "updateElementPositions st = forEach positionElement (elements st) st"

text \<open>The callback of \<^verbatim>\<open>_updateElementAttributes\<close>, on the element object at \<open>a\<close>.\<close>

definition deriveElement :: "parser \<Rightarrow> addr \<Rightarrow> state \<Rightarrow> unit result" where
  "deriveElement parse a st =
     (case el_props (heap st a) of
        None \<Rightarrow> (Inl TypeError, st)
      | Some p \<Rightarrow>
          if disabled p then (Inr (), st)
          else (case setupOffsets parse (heap st a) of
                  Inl e \<Rightarrow> (Inl e, st)
                | Inr el1 \<Rightarrow>
                    (let st1 = st\<lparr>heap := (heap st)(a := el1)\<rparr>
                     in case cacheAttributes st1 el1 of
                          Inl e \<Rightarrow> (Inl e, st1)
                        | Inr el2 \<Rightarrow> (Inr (), st1\<lparr>heap := (heap st1)(a := el2)\<rparr>))))"

definition updateElementAttributes :: "parser \<Rightarrow> state \<Rightarrow> unit result" where
  "updateElementAttributes parse st = forEach (deriveElement parse) (elements st) st"

section \<open>Event handlers and public methods\<close>

text \<open>
  \<^verbatim>\<open>_handleScroll\<close>: records the scroll position and direction, and requests one animation
  frame for \<^verbatim>\<open>_updateElementPositions\<close> unless one is pending or the registry is empty.
\<close>

definition handleScroll :: "state \<Rightarrow> state" where
  "handleScroll st =
     (let prevScrollY = scrollY st;
          st1 = st\<lparr>scrollY := window_scrollY st\<rparr>;
          st2 = st1\<lparr>scrollDown := Some (scrollY st1 > prevScrollY)\<rparr>
      in if \<not> ticking st2 \<and> length (elements st2) > 0
         then st2\<lparr>ticking := True, frames := frames st2 + 1\<rparr>
         else st2)"

text \<open>The browser runs one requested animation frame: the callback is
  \<^verbatim>\<open>_updateElementPositions\<close>.\<close>

definition animationFrame :: "state \<Rightarrow> unit result" where
  "animationFrame st =
     (if frames st = 0 then (Inr (), st)
      else updateElementPositions (st\<lparr>frames := frames st - 1\<rparr>))"

text \<open>\<^verbatim>\<open>update\<close> (and \<^verbatim>\<open>_handleResize\<close>, which has the same body).\<close>

definition update :: "parser \<Rightarrow> state \<Rightarrow> unit result" where
  "update parse st =
     (case updateElementAttributes parse st of
        (Inl e, st1) \<Rightarrow> (Inl e, st1)
      | (Inr _, st1) \<Rightarrow> updateElementPositions st1)"

definition handleResize :: "parser \<Rightarrow> state \<Rightarrow> unit result" where
  "handleResize parse st = update parse st"

text \<open>
  \<^verbatim>\<open>createElement\<close>: the object literal \<^verbatim>\<open>{id, ...options}\<close> takes the new id first and
  then every key of the options, so an \<^verbatim>\<open>id\<close> among the options replaces it. The object
  is pushed before \<^verbatim>\<open>update\<close> runs; its reference is the value returned.
\<close>

definition createElement :: "parser \<Rightarrow> options \<Rightarrow> state \<Rightarrow> addr result" where
  "createElement parse opts st =
     (let (i, st1) = createID st;
          element = \<lparr>el_id = (case opt_id opts of None \<Rightarrow> Some i | Some j \<Rightarrow> Some j),
                     el_props = opt_props opts, el_outer = opt_outer opts,
                     el_inner = opt_inner opts, el_offsets = None, el_attributes = None\<rparr>;
          a = next_addr st1;
          st2 = st1\<lparr>heap := (heap st1)(a := element), next_addr := a + 1\<rparr>;
          st3 = st2\<lparr>elements := elements st2 @ [a]\<rparr>
      in case update parse st3 of
           (Inl e, st4) \<Rightarrow> (Inl e, st4)
         | (Inr _, st4) \<Rightarrow> (Inr a, st4))"

text \<open>\<^verbatim>\<open>indexOf\<close> and \<^verbatim>\<open>findIndex\<close> of an array; \<open>None\<close> is their result \<open>-1\<close>.\<close>

fun findIndex :: "('a \<Rightarrow> bool) \<Rightarrow> 'a list \<Rightarrow> nat option" where
  "findIndex P [] = None"
| "findIndex P (x # xs) =
     (if P x then Some 0 else map_option Suc (findIndex P xs))"

definition indexOf :: "'a list \<Rightarrow> 'a \<Rightarrow> nat option" where
  "indexOf xs x = findIndex (\<lambda>y. y = x) xs"

text \<open>\<^verbatim>\<open>removeElement\<close>: \<^verbatim>\<open>splice(index, 1)\<close> when the reference is in the registry.\<close>

definition removeElement :: "addr \<Rightarrow> state \<Rightarrow> state" where
  "removeElement a st =
     (case indexOf (elements st) a of
        None \<Rightarrow> st
      | Some index \<Rightarrow>
          st\<lparr>elements := take index (elements st) @ drop (Suc index) (elements st)\<rparr>)"

text \<open>
  \<^verbatim>\<open>Object.assign({}, old, options)\<close>: a new object with the keys of \<open>old\<close> (none when
  \<open>old\<close> is undefined), then those of the options.
\<close>

definition emptyObject :: element where
  "emptyObject = \<lparr>el_id = None, el_props = None, el_outer = None, el_inner = None,
                   el_offsets = None, el_attributes = None\<rparr>"

definition assign :: "element option \<Rightarrow> options \<Rightarrow> element" where
  "assign old opts =
     (let e = (case old of None \<Rightarrow> emptyObject | Some e' \<Rightarrow> e')
      in e\<lparr>el_id := (case opt_id opts of None \<Rightarrow> el_id e | Some j \<Rightarrow> Some j),
           el_props := (case opt_props opts of None \<Rightarrow> el_props e | Some p \<Rightarrow> Some p),
           el_outer := (case opt_outer opts of None \<Rightarrow> el_outer e | Some n \<Rightarrow> Some n),
           el_inner := (case opt_inner opts of None \<Rightarrow> el_inner e | Some n \<Rightarrow> Some n)\<rparr>)"

text \<open>
  \<^verbatim>\<open>updateElement\<close>. When no element has the id, \<^verbatim>\<open>findIndex\<close> gives \<open>-1\<close>:
  \<^verbatim>\<open>elements[-1]\<close> reads the property \<^verbatim>\<open>"-1"\<close> of the array (undefined until a call has
  written it) and the assignment \<^verbatim>\<open>elements[-1] = element\<close> writes that property, which
  is no entry of the array and does not change its length.
\<close>

definition updateElement :: "parser \<Rightarrow> int \<Rightarrow> options \<Rightarrow> state \<Rightarrow> unit result" where
  "updateElement parse i opts st =
     (let index = findIndex (\<lambda>a. el_id (heap st a) = Some i) (elements st);
          old = (case index of
                   None \<Rightarrow> map_option (heap st) (elements_neg1 st)
                 | Some k \<Rightarrow> Some (heap st (elements st ! k)));
          element = assign old opts;
          a = next_addr st;
          st1 = st\<lparr>heap := (heap st)(a := element), next_addr := a + 1\<rparr>;
          st2 = (case index of
                   None \<Rightarrow> st1\<lparr>elements_neg1 := Some a\<rparr>
                 | Some k \<Rightarrow> st1\<lparr>elements := (elements st1)[k := a]\<rparr>)
      in update parse st2)"

text \<open>
  \<^verbatim>\<open>_resetStyles\<close> on the element object at \<open>a\<close>, \<^verbatim>\<open>_removeParallaxStyles\<close> and \<^verbatim>\<open>reset\<close>.
  (\<^verbatim>\<open>destroy\<close> removes the two listeners and the global reference, which are outside this
  state, and resets the styles in the same way.)
\<close>

definition resetStyles :: "addr \<Rightarrow> state \<Rightarrow> unit result" where
  "resetStyles a st =
     (case el_inner (heap st a) of
        None \<Rightarrow> (Inl TypeError, st)
      | Some el \<Rightarrow> (Inr (), st\<lparr>style := (style st)(el := ResetStyles)\<rparr>))"

definition removeParallaxStyles :: "state \<Rightarrow> unit result" where
  "removeParallaxStyles st = forEach resetStyles (elements st) st"

definition reset :: "state \<Rightarrow> unit result" where
  "reset st = removeParallaxStyles st"

section \<open>A sample page\<close>

text \<open>
  The listener as its constructor leaves it, on a page whose window is 800 pixels high and
  not scrolled, and where every node is 100 pixels high, 200 wide and 350 pixels below the
  top of the viewport.
\<close>

definition freshListener :: state where
  "freshListener =
     \<lparr>elements = [], elements_neg1 = None, heap = (\<lambda>_. emptyObject), next_addr = 0,
      scrollY = 0, id_count = 0, ticking = False, scrollDown = None, frames = 0,
      window_scrollY = 0, window_innerHeight = 800, html_clientHeight = 800,
      layout = (\<lambda>_. \<lparr>rect_top = 350, rect_bottom = 450, offsetHeight = 100,
                       offsetWidth = 200\<rparr>),
      style = (\<lambda>_. Untouched)\<rparr>"

definition sampleProps :: props where
  "sampleProps =
     \<lparr>disabled = False, slowerScrollRate = False, offsetYMin = ''-20%'', offsetYMax = ''20%'',
      offsetXMin = ''-10%'', offsetXMax = ''30%''\<rparr>"

definition sampleOptions :: options where
  "sampleOptions =
     \<lparr>opt_id = None, opt_props = Some sampleProps, opt_outer = Some 0, opt_inner = Some 1\<rparr>"

definition sampleAttributes :: attributes where
  "sampleAttributes =
     \<lparr>attr_top = 330, attr_bottom = 470, elHeight = 100, elWidth = 200, yMaxPx = 20,
      yMinPx = - 20, xMaxPx = - 20, xMinPx = 60, totalDist = 940, windowHeight = 800\<rparr>"

definition sampleOffsets :: offsets where
  "sampleOffsets =
     \<lparr>xUnit = ''%'', yUnit = ''%'',
      yMin = \<lparr>ovalue = - 20, ounit = ''%''\<rparr>, yMax = \<lparr>ovalue = 20, ounit = ''%''\<rparr>,
      xMin = \<lparr>ovalue = 30, ounit = ''%''\<rparr>, xMax = \<lparr>ovalue = - 10, ounit = ''%''\<rparr>\<rparr>"

text \<open>The listener after \<^verbatim>\<open>createElement(sampleOptions)\<close> on the sample page.\<close>

definition sampleListener :: state where
  "sampleListener = snd (createElement parseValueAndUnit sampleOptions freshListener)"

text \<open>Configurations whose y offsets have different units, and a disabled one.\<close>

definition mismatchedProps :: props where
  "mismatchedProps = sampleProps\<lparr>offsetYMax := ''20px''\<rparr>"

definition mismatchedOptions :: options where
  "mismatchedOptions = sampleOptions\<lparr>opt_props := Some mismatchedProps\<rparr>"

definition disabledOptions :: options where
  "disabledOptions = sampleOptions\<lparr>opt_props := Some (sampleProps\<lparr>disabled := True\<rparr>)\<rparr>"

text \<open>The listener after \<^verbatim>\<open>createElement(disabledOptions)\<close> on the sample page.\<close>

definition disabledListener :: state where
  "disabledListener = snd (createElement parseValueAndUnit disabledOptions freshListener)"

text \<open>Options that carry an \<^verbatim>\<open>id\<close> key.\<close>

definition idOptions :: options where
  "idOptions = sampleOptions\<lparr>opt_id := Some 1\<rparr>"

section \<open>Predicates of the statements\<close>

text \<open>The parsed units of the min and max offsets differ on the x axis or on the y axis.\<close>

definition mismatched :: "parser \<Rightarrow> props \<Rightarrow> bool" where
  "mismatched parse p \<longleftrightarrow>
     ounit (parse (offsetXMin p)) \<noteq> ounit (parse (offsetXMax p))
   \<or> ounit (parse (offsetYMin p)) \<noteq> ounit (parse (offsetYMax p))"

text \<open>An enabled element whose configuration has mismatched units.\<close>

definition invalidElement :: "parser \<Rightarrow> element \<Rightarrow> bool" where
  "invalidElement parse el =
     (case el_props el of
        None \<Rightarrow> False
      | Some p \<Rightarrow> \<not> disabled p \<and> mismatched parse p)"

text \<open>
  An element on which the callback of \<^verbatim>\<open>_updateElementAttributes\<close> raises nothing: it has
  props, and it is disabled or has matching units and a node to measure.
\<close>

definition derivable :: "parser \<Rightarrow> element \<Rightarrow> bool" where
  "derivable parse el =
     (case el_props el of
        None \<Rightarrow> False
      | Some p \<Rightarrow> disabled p \<or> (\<not> mismatched parse p \<and> el_outer el \<noteq> None))"

text \<open>The references of the registry are allocated: the next fresh reference is above them.\<close>

definition wf_state :: "state \<Rightarrow> bool" where
  "wf_state st \<longleftrightarrow> (\<forall>a \<in> set (elements st). a < next_addr st)"

text \<open>The keys of an element object that only the caller's options determine.\<close>

definition core :: "element \<Rightarrow> int option \<times> props option \<times> node option \<times> node option" where
  "core el = (el_id el, el_props el, el_outer el, el_inner el)"

text \<open>The ids of the registry entries, in registry order.\<close>

definition registryIds :: "state \<Rightarrow> int option list" where
  "registryIds st = map (\<lambda>a. el_id (heap st a)) (elements st)"

text \<open>
  The ids of the registry are defined, strictly increasing along the registry and not
  above the counter.
\<close>

definition ids_ok :: "state \<Rightarrow> bool" where
  "ids_ok st \<longleftrightarrow>
     wf_state st
   \<and> (\<exists>js. registryIds st = map Some js \<and> sorted_wrt (<) js \<and> (\<forall>j \<in> set js. j \<le> id_count st))"

text \<open>An element with props that is not disabled.\<close>

definition enabledElement :: "element \<Rightarrow> bool" where
  "enabledElement el = (case el_props el of None \<Rightarrow> False | Some p \<Rightarrow> \<not> disabled p)"

text \<open>
  A burst of scroll events: the browser moves the window to each position in turn and
  calls \<^verbatim>\<open>_handleScroll\<close>, and runs no animation frame in between.
\<close>

definition scrollBurst :: "real list \<Rightarrow> state \<Rightarrow> state" where
  "scrollBurst ys st = foldl (\<lambda>s y. handleScroll (s\<lparr>window_scrollY := y\<rparr>)) st ys"

section \<open>Running the model on the sample page\<close>

lemmas run_defs =
  createElement_def createID_def update_def updateElementAttributes_def
  updateElementPositions_def deriveElement_def positionElement_def setupOffsets_def
  cacheAttributes_def isElementInView_def setParallaxStyles_def percentMoved_def
  scaleBetween_def parseValueAndUnit_def Let_def emptyObject_def

lemmas sample_defs =
  freshListener_def sampleProps_def sampleOptions_def sampleAttributes_def sampleOffsets_def

lemma sample_created:
  "createElement parseValueAndUnit sampleOptions freshListener =
     (Inr 0,
      freshListener\<lparr>elements := [0], next_addr := 1, id_count := 1,
        heap := (heap freshListener)
          (0 := \<lparr>el_id = Some 1, el_props = Some sampleProps, el_outer = Some 0,
                 el_inner = Some 1, el_offsets = Some sampleOffsets,
                 el_attributes = Some sampleAttributes\<rparr>),
        style := (style freshListener)(1 := ParallaxStyles 10 ''%'' 0 ''%'')\<rparr>)"
  by (simp add: run_defs sample_defs)

lemma sampleListener_eq:
  "sampleListener =
     freshListener\<lparr>elements := [0], next_addr := 1, id_count := 1,
        heap := (heap freshListener)
          (0 := \<lparr>el_id = Some 1, el_props = Some sampleProps, el_outer = Some 0,
                 el_inner = Some 1, el_offsets = Some sampleOffsets,
                 el_attributes = Some sampleAttributes\<rparr>),
        style := (style freshListener)(1 := ParallaxStyles 10 ''%'' 0 ''%'')\<rparr>"
  by (simp add: sampleListener_def sample_created)

section \<open>The visibility check\<close>

text \<open>
  C2. With cached attributes, \<^verbatim>\<open>_isElementInView\<close> returns a boolean, and it returns true
  exactly when the viewport-relative top (cached top minus the tracked scroll position) is
  in \<open>[0, windowHeight]\<close>, or the viewport-relative bottom is, or the element spans the
  viewport. With a window height that is not negative, it is true when the top is exactly
  0 and when the bottom is exactly the window height, and false when both edges are above
  the viewport or both are below it.
\<close>

theorem isElementInView_spec:
  assumes "el_attributes el = Some a"
  shows "(isElementInView st el = Inr True \<or> isElementInView st el = Inr False)
       \<and> (isElementInView st el = Inr True \<longleftrightarrow>
            (0 \<le> attr_top a - scrollY st \<and> attr_top a - scrollY st \<le> windowHeight a)
          \<or> (0 \<le> attr_bottom a - scrollY st \<and> attr_bottom a - scrollY st \<le> windowHeight a)
          \<or> (attr_top a - scrollY st \<le> 0 \<and> windowHeight a \<le> attr_bottom a - scrollY st))
       \<and> (0 \<le> windowHeight a \<and> attr_top a - scrollY st = 0 \<longrightarrow>
            isElementInView st el = Inr True)
       \<and> (0 \<le> windowHeight a \<and> attr_bottom a - scrollY st = windowHeight a \<longrightarrow>
            isElementInView st el = Inr True)
       \<and> (0 \<le> windowHeight a \<and> attr_top a - scrollY st < 0
            \<and> attr_bottom a - scrollY st < 0 \<longrightarrow>
            isElementInView st el = Inr False)
       \<and> (0 \<le> windowHeight a \<and> windowHeight a < attr_top a - scrollY st
            \<and> windowHeight a < attr_bottom a - scrollY st \<longrightarrow>
            isElementInView st el = Inr False)"
  using assms by (auto simp add: isElementInView_def Let_def)

text \<open>
  The sample element (cached top 330, bottom 470, window height 800) at four scroll
  positions: top edge at 0, bottom edge at the window height, above, below.
\<close>

theorem isElementInView_spec_witness:
  "el_attributes (emptyObject\<lparr>el_attributes := Some sampleAttributes\<rparr>) = Some sampleAttributes
   \<and> 0 \<le> windowHeight sampleAttributes
   \<and> attr_top sampleAttributes - scrollY (freshListener\<lparr>scrollY := 330\<rparr>) = 0
   \<and> isElementInView (freshListener\<lparr>scrollY := 330\<rparr>)
        (emptyObject\<lparr>el_attributes := Some sampleAttributes\<rparr>) = Inr True
   \<and> attr_bottom sampleAttributes - scrollY (freshListener\<lparr>scrollY := - 330\<rparr>)
        = windowHeight sampleAttributes
   \<and> isElementInView (freshListener\<lparr>scrollY := - 330\<rparr>)
        (emptyObject\<lparr>el_attributes := Some sampleAttributes\<rparr>) = Inr True
   \<and> attr_bottom sampleAttributes - scrollY (freshListener\<lparr>scrollY := 500\<rparr>) < 0
   \<and> isElementInView (freshListener\<lparr>scrollY := 500\<rparr>)
        (emptyObject\<lparr>el_attributes := Some sampleAttributes\<rparr>) = Inr False
   \<and> windowHeight sampleAttributes
        < attr_top sampleAttributes - scrollY (freshListener\<lparr>scrollY := - 500\<rparr>)
   \<and> isElementInView (freshListener\<lparr>scrollY := - 500\<rparr>)
        (emptyObject\<lparr>el_attributes := Some sampleAttributes\<rparr>) = Inr False"
proof -
  let ?el = "emptyObject\<lparr>el_attributes := Some sampleAttributes\<rparr>"
  have a: "el_attributes ?el = Some sampleAttributes" by simp
  show ?thesis
    using isElementInView_spec [OF a, of "freshListener\<lparr>scrollY := 330\<rparr>"]
      isElementInView_spec [OF a, of "freshListener\<lparr>scrollY := - 330\<rparr>"]
      isElementInView_spec [OF a, of "freshListener\<lparr>scrollY := 500\<rparr>"]
      isElementInView_spec [OF a, of "freshListener\<lparr>scrollY := - 500\<rparr>"]
    by (simp add: freshListener_def sampleAttributes_def)
qed

section \<open>The style computation\<close>

lemma scaleBetween_percent:
  "scaleBetween v newMin newMax 0 100 = newMin + (newMax - newMin) * v / 100"
  by (simp add: scaleBetween_def)

lemma percentMoved_eq:
  "percentMoved s a = (- (attr_top a - s) + windowHeight a) / totalDist a * 100"
  by (simp add: percentMoved_def)

lemma setParallaxStyles_eq:
  assumes "el_props el = Some p" and "el_attributes el = Some atts"
    and "el_offsets el = Some ofs" and "el_inner el = Some n"
  shows "setParallaxStyles el st =
     Inr (st\<lparr>style := (style st)(n := ParallaxStyles
        (if slowerScrollRate p
         then scaleBetween (percentMoved (scrollY st) atts)
                (ovalue (xMin ofs)) (ovalue (xMax ofs)) 0 100
         else scaleBetween (percentMoved (scrollY st) atts)
                (ovalue (xMax ofs)) (ovalue (xMin ofs)) 0 100)
        (xUnit ofs)
        (if slowerScrollRate p
         then scaleBetween (percentMoved (scrollY st) atts)
                (ovalue (yMin ofs)) (ovalue (yMax ofs)) 0 100
         else scaleBetween (percentMoved (scrollY st) atts)
                (ovalue (yMax ofs)) (ovalue (yMin ofs)) 0 100)
        (yUnit ofs))\<rparr>)"
  using assms by (simp add: setParallaxStyles_def Let_def)

text \<open>
  C1. On an enabled element that is in view, whose cached \<open>totalDist\<close> is not 0, the
  callback of \<^verbatim>\<open>_updateElementPositions\<close> computes
  \<open>percentMoved = (- top + windowHeight) / totalDist * 100\<close> with \<open>top\<close> the cached top
  minus the tracked scroll position, and writes the transform whose x and y are that
  percent rescaled linearly from \<open>[0, 100]\<close> into the range of \<^verbatim>\<open>element.offsets\<close> of the
  axis (the rescaling is \<open>scaleBetween\<close>, modelled from the spec): from min to max when
  \<open>slowerScrollRate\<close> is true, from max to min when it is false. With \<open>slowerScrollRate\<close> false, y offsets \<open>- 20\<close> and \<open>20\<close> and the percent 50, y is 0.
\<close>

theorem positionElement_styles:
  assumes "el_props (heap st a) = Some p" and "\<not> disabled p"
    and "el_attributes (heap st a) = Some atts" and "el_offsets (heap st a) = Some ofs"
    and "el_inner (heap st a) = Some n"
    and "isElementInView st (heap st a) = Inr True"
    and "totalDist atts \<noteq> 0"
  shows "let pm = (- (attr_top atts - scrollY st) + windowHeight atts) / totalDist atts * 100;
             x = (if slowerScrollRate p
                  then ovalue (xMin ofs) + (ovalue (xMax ofs) - ovalue (xMin ofs)) * pm / 100
                  else ovalue (xMax ofs) + (ovalue (xMin ofs) - ovalue (xMax ofs)) * pm / 100);
             y = (if slowerScrollRate p
                  then ovalue (yMin ofs) + (ovalue (yMax ofs) - ovalue (yMin ofs)) * pm / 100
                  else ovalue (yMax ofs) + (ovalue (yMin ofs) - ovalue (yMax ofs)) * pm / 100)
         in percentMoved (scrollY st) atts = pm
          \<and> positionElement a st =
              (Inr (), st\<lparr>style := (style st)(n := ParallaxStyles x (xUnit ofs) y (yUnit ofs)),
                         ticking := False\<rparr>)
          \<and> (\<not> slowerScrollRate p \<and> ovalue (yMin ofs) = - 20 \<and> ovalue (yMax ofs) = 20
               \<and> pm = 50 \<longrightarrow> y = 0)"
proof -
  have styles: "positionElement a st =
      (case setParallaxStyles (heap st a) st of
         Inl e \<Rightarrow> (Inl e, st)
       | Inr st' \<Rightarrow> (Inr (), st'\<lparr>ticking := False\<rparr>))"
    using assms(1,2,6) by (simp add: positionElement_def)
  show ?thesis
    unfolding Let_def styles setParallaxStyles_eq [OF assms(1,3,4,5)]
      scaleBetween_percent percentMoved_eq
    by simp
qed

text \<open>
  The sample element right after its creation: the percent is 50, and the transform is
  \<^verbatim>\<open>translate3d(10%, 0%, 0)\<close>.
\<close>

theorem positionElement_styles_witness:
  "el_props (heap sampleListener 0) = Some sampleProps \<and> \<not> disabled sampleProps
   \<and> \<not> slowerScrollRate sampleProps
   \<and> el_attributes (heap sampleListener 0) = Some sampleAttributes
   \<and> el_offsets (heap sampleListener 0) = Some sampleOffsets
   \<and> el_inner (heap sampleListener 0) = Some 1
   \<and> isElementInView sampleListener (heap sampleListener 0) = Inr True
   \<and> totalDist sampleAttributes \<noteq> 0
   \<and> ovalue (yMin sampleOffsets) = - 20 \<and> ovalue (yMax sampleOffsets) = 20
   \<and> percentMoved (scrollY sampleListener) sampleAttributes = 50
   \<and> positionElement 0 sampleListener =
        (Inr (), sampleListener\<lparr>style := (style sampleListener)
                   (1 := ParallaxStyles 10 ''%'' 0 ''%''), ticking := False\<rparr>)"
proof -
  have h: "el_props (heap sampleListener 0) = Some sampleProps" "\<not> disabled sampleProps"
    "el_attributes (heap sampleListener 0) = Some sampleAttributes"
    "el_offsets (heap sampleListener 0) = Some sampleOffsets"
    "el_inner (heap sampleListener 0) = Some 1"
    "isElementInView sampleListener (heap sampleListener 0) = Inr True"
    "totalDist sampleAttributes \<noteq> 0"
    by (simp_all add: sampleListener_eq isElementInView_def sample_defs)
  have v: "\<not> slowerScrollRate sampleProps" "ovalue (yMin sampleOffsets) = - 20"
    "ovalue (yMax sampleOffsets) = 20" "ovalue (xMin sampleOffsets) = 30"
    "ovalue (xMax sampleOffsets) = - 10" "xUnit sampleOffsets = ''%''" "yUnit sampleOffsets = ''%''"
    "attr_top sampleAttributes = 330" "windowHeight sampleAttributes = 800"
    "totalDist sampleAttributes = 940" "scrollY sampleListener = 0"
    by (simp_all add: sample_defs sampleListener_eq)
  show ?thesis
    using positionElement_styles [OF h] h v by (simp add: Let_def)
qed

section \<open>What the update pass leaves unchanged\<close>

lemma setupOffsets_core:
  "setupOffsets parse el = Inr el' \<Longrightarrow> core el' = core el"
  by (auto simp add: setupOffsets_def core_def Let_def split: option.splits if_splits)

lemma cacheAttributes_core:
  "cacheAttributes st el = Inr el' \<Longrightarrow> core el' = core el"
  by (auto simp add: cacheAttributes_def core_def Let_def split: option.splits)

lemma deriveElement_frame:
  assumes "deriveElement parse a st = (r, st')"
  shows "\<exists>h. st' = st\<lparr>heap := h\<rparr> \<and> (\<forall>b. core (h b) = core (heap st b))"
proof (cases "el_props (heap st a)")
  case None
  with assms have "st' = st" by (simp add: deriveElement_def)
  then have "st' = st\<lparr>heap := heap st\<rparr>" by simp
  then show ?thesis by blast
next
  case (Some p)
  show ?thesis
  proof (cases "disabled p")
    case True
    with Some assms have "st' = st" by (simp add: deriveElement_def)
    then have "st' = st\<lparr>heap := heap st\<rparr>" by simp
    then show ?thesis by blast
  next
    case False
    show ?thesis
    proof (cases "setupOffsets parse (heap st a)")
      case (Inl e)
      with Some False assms have "st' = st" by (simp add: deriveElement_def)
      then have "st' = st\<lparr>heap := heap st\<rparr>" by simp
      then show ?thesis by blast
    next
      case (Inr el1)
      then have c1: "core el1 = core (heap st a)" by (rule setupOffsets_core)
      let ?st1 = "st\<lparr>heap := (heap st)(a := el1)\<rparr>"
      show ?thesis
      proof (cases "cacheAttributes ?st1 el1")
        case (Inl e)
        with Some False Inr assms have "st' = ?st1" by (simp add: deriveElement_def Let_def)
        with c1 show ?thesis by (intro exI [of _ "(heap st)(a := el1)"]) simp
      next
        case (Inr el2)
        then have c2: "core el2 = core el1" by (rule cacheAttributes_core)
        from Some False \<open>setupOffsets parse (heap st a) = Inr el1\<close> Inr assms
        have "st' = st\<lparr>heap := (heap st)(a := el2)\<rparr>" by (simp add: deriveElement_def Let_def)
        with c1 c2 show ?thesis by (intro exI [of _ "(heap st)(a := el2)"]) simp
      qed
    qed
  qed
qed

lemma forEach_derive_frame:
  "forEach (deriveElement parse) xs st = (r, st') \<Longrightarrow>
   \<exists>h. st' = st\<lparr>heap := h\<rparr> \<and> (\<forall>b. core (h b) = core (heap st b))"
proof (induction xs arbitrary: st)
  case Nil
  then have "st' = st\<lparr>heap := heap st\<rparr>" by simp
  then show ?case by blast
next
  case (Cons a xs)
  obtain r1 st1 where d: "deriveElement parse a st = (r1, st1)" by (cases "deriveElement parse a st")
  from deriveElement_frame [OF d] obtain h1
    where h1: "st1 = st\<lparr>heap := h1\<rparr>" "\<forall>b. core (h1 b) = core (heap st b)" by blast
  show ?case
  proof (cases r1)
    case (Inl e)
    with d Cons.prems have "st' = st1" by simp
    with h1 show ?thesis by blast
  next
    case (Inr u)
    with d Cons.prems have "forEach (deriveElement parse) xs st1 = (r, st')" by simp
    from Cons.IH [OF this] obtain h
      where h: "st' = st1\<lparr>heap := h\<rparr>" "\<forall>b. core (h b) = core (heap st1 b)" by blast
    from h h1 have "st' = st\<lparr>heap := h\<rparr>" "\<forall>b. core (h b) = core (heap st b)" by simp_all
    then show ?thesis by blast
  qed
qed

lemma positionElement_frame:
  assumes "positionElement a st = (r, st')"
  shows "\<exists>s t. st' = st\<lparr>ticking := t, style := s\<rparr>"
proof -
  have id: "st = st\<lparr>ticking := ticking st, style := style st\<rparr>" by simp
  have tk: "st\<lparr>ticking := False\<rparr> = st\<lparr>ticking := False, style := style st\<rparr>" by simp
  have sp: "\<And>el st1. setParallaxStyles el st = Inr st1 \<Longrightarrow> \<exists>s. st1 = st\<lparr>style := s\<rparr>"
    by (auto simp add: setParallaxStyles_def Let_def split: option.splits)
  show ?thesis
  proof (cases "el_props (heap st a)")
    case None
    with assms have "st' = st" by (simp add: positionElement_def)
    with id show ?thesis by metis
  next
    case (Some p)
    show ?thesis
    proof (cases "disabled p")
      case True
      with Some assms have "st' = st" by (simp add: positionElement_def)
      with id show ?thesis by metis
    next
      case False
      show ?thesis
      proof (cases "isElementInView st (heap st a)")
        case (Inl e)
        with Some False assms have "st' = st" by (simp add: positionElement_def)
        with id show ?thesis by metis
      next
        case (Inr v)
        show ?thesis
        proof (cases "v \<and> (\<exists>e. setParallaxStyles (heap st a) st = Inl e)")
          case True
          with Some False Inr assms have "st' = st" by (auto simp add: positionElement_def)
          with id show ?thesis by metis
        next
          case F: False
          show ?thesis
          proof (cases v)
            case True
            with F obtain st1 where s1: "setParallaxStyles (heap st a) st = Inr st1"
              by (cases "setParallaxStyles (heap st a) st") auto
            from sp [OF s1] obtain s where "st1 = st\<lparr>style := s\<rparr>" by blast
            moreover from Some False Inr True s1 assms have "st' = st1\<lparr>ticking := False\<rparr>"
              by (simp add: positionElement_def)
            ultimately have "st' = st\<lparr>ticking := False, style := s\<rparr>" by simp
            then show ?thesis by blast
          next
            case False
            with Some \<open>\<not> disabled p\<close> Inr assms have "st' = st\<lparr>ticking := False\<rparr>"
              by (simp add: positionElement_def)
            with tk show ?thesis by metis
          qed
        qed
      qed
    qed
  qed
qed

lemma forEach_position_frame:
  "forEach positionElement xs st = (r, st') \<Longrightarrow> \<exists>s t. st' = st\<lparr>ticking := t, style := s\<rparr>"
proof (induction xs arbitrary: st)
  case Nil
  then have "st' = st\<lparr>ticking := ticking st, style := style st\<rparr>" by simp
  then show ?case by blast
next
  case (Cons a xs)
  obtain r1 st1 where d: "positionElement a st = (r1, st1)" by (cases "positionElement a st")
  from positionElement_frame [OF d] obtain s1 t1
    where h1: "st1 = st\<lparr>ticking := t1, style := s1\<rparr>" by blast
  show ?case
  proof (cases r1)
    case (Inl e)
    with d Cons.prems have "st' = st1" by simp
    with h1 show ?thesis by blast
  next
    case (Inr u)
    with d Cons.prems have "forEach positionElement xs st1 = (r, st')" by simp
    from Cons.IH [OF this] obtain s t
      where h: "st' = st1\<lparr>ticking := t, style := s\<rparr>" by blast
    from h h1 have "st' = st\<lparr>ticking := t, style := s\<rparr>" by simp
    then show ?thesis by blast
  qed
qed

lemma update_frame:
  assumes "update parse st = (r, st')"
  shows "\<exists>h s t. st' = st\<lparr>heap := h, ticking := t, style := s\<rparr>
           \<and> (\<forall>b. core (h b) = core (heap st b))"
proof -
  obtain r1 st1 where a: "updateElementAttributes parse st = (r1, st1)"
    by (cases "updateElementAttributes parse st")
  then have "forEach (deriveElement parse) (elements st) st = (r1, st1)"
    by (simp add: updateElementAttributes_def)
  from forEach_derive_frame [OF this] obtain h
    where h: "st1 = st\<lparr>heap := h\<rparr>" "\<forall>b. core (h b) = core (heap st b)" by blast
  show ?thesis
  proof (cases r1)
    case (Inl e)
    with a assms have "st' = st1" by (simp add: update_def)
    with h have "st' = st\<lparr>heap := h, ticking := ticking st, style := style st\<rparr>" by simp
    with h(2) show ?thesis by blast
  next
    case (Inr u)
    with a assms have "forEach positionElement (elements st1) st1 = (r, st')"
      by (simp add: update_def updateElementPositions_def)
    from forEach_position_frame [OF this] obtain s t
      where "st' = st1\<lparr>ticking := t, style := s\<rparr>" by blast
    with h have "st' = st\<lparr>heap := h, ticking := t, style := s\<rparr>" by simp
    with h(2) show ?thesis by blast
  qed
qed

section \<open>Mismatched units\<close>

lemma setupOffsets_mismatch:
  assumes "el_props el = Some p"
  shows "if mismatched parse p
         then setupOffsets parse el = Inl UnitsMismatch
         else \<exists>ofs. setupOffsets parse el = Inr (el\<lparr>el_offsets := Some ofs\<rparr>)"
  using assms by (auto simp add: setupOffsets_def mismatched_def Let_def)

lemma deriveElement_invalid:
  assumes "invalidElement parse (heap st a)"
  shows "deriveElement parse a st = (Inl UnitsMismatch, st)"
proof -
  from assms obtain p where p: "el_props (heap st a) = Some p" "\<not> disabled p" "mismatched parse p"
    by (auto simp add: invalidElement_def split: option.splits)
  from setupOffsets_mismatch [OF p(1), of parse] p(3)
  have "setupOffsets parse (heap st a) = Inl UnitsMismatch" by simp
  with p show ?thesis by (simp add: deriveElement_def)
qed

lemma cacheAttributes_returns:
  assumes "el_offsets el = Some ofs" and "el_props el = Some p" and "el_outer el = Some n"
  shows "\<exists>el'. cacheAttributes st el = Inr el'"
  using assms by (simp add: cacheAttributes_def Let_def)

lemma deriveElement_derivable:
  assumes "derivable parse (heap st a)"
  shows "\<exists>st'. deriveElement parse a st = (Inr (), st')"
proof -
  from assms obtain p where p: "el_props (heap st a) = Some p"
    and d: "disabled p \<or> (\<not> mismatched parse p \<and> el_outer (heap st a) \<noteq> None)"
    by (auto simp add: derivable_def split: option.splits)
  show ?thesis
  proof (cases "disabled p")
    case True
    with p show ?thesis by (simp add: deriveElement_def)
  next
    case False
    with d obtain n where ok: "\<not> mismatched parse p" and n: "el_outer (heap st a) = Some n" by auto
    from setupOffsets_mismatch [OF p, of parse] ok obtain ofs
      where s: "setupOffsets parse (heap st a) = Inr ((heap st a)\<lparr>el_offsets := Some ofs\<rparr>)"
      by auto
    let ?el1 = "(heap st a)\<lparr>el_offsets := Some ofs\<rparr>"
    let ?st1 = "st\<lparr>heap := (heap st)(a := ?el1)\<rparr>"
    have "\<exists>el'. cacheAttributes ?st1 ?el1 = Inr el'"
      using p n by (intro cacheAttributes_returns [of _ ofs p n]) simp_all
    then obtain el2 where "cacheAttributes ?st1 ?el1 = Inr el2" by blast
    with p False s show ?thesis by (simp add: deriveElement_def Let_def)
  qed
qed

lemma invalidElement_core:
  "core el' = core el \<Longrightarrow> invalidElement parse el' = invalidElement parse el"
  by (simp add: invalidElement_def core_def)

lemma derivable_core:
  "core el' = core el \<Longrightarrow> derivable parse el' = derivable parse el"
  by (auto simp add: derivable_def core_def split: option.splits)

lemma forEach_derive_invalid:
  assumes "\<forall>b \<in> set pre. derivable parse (heap st b) \<or> invalidElement parse (heap st b)"
    and "invalidElement parse (heap st c)"
  shows "fst (forEach (deriveElement parse) (pre @ c # post) st) = Inl UnitsMismatch"
  using assms
proof (induction pre arbitrary: st)
  case Nil
  then show ?case by (simp add: deriveElement_invalid)
next
  case (Cons a pre)
  show ?case
  proof (cases "invalidElement parse (heap st a)")
    case True
    then show ?thesis by (simp add: deriveElement_invalid)
  next
    case False
    with Cons.prems have "derivable parse (heap st a)" by simp
    from deriveElement_derivable [OF this] obtain st1
      where d: "deriveElement parse a st = (Inr (), st1)" by blast
    from deriveElement_frame [OF d] obtain h
      where h: "st1 = st\<lparr>heap := h\<rparr>" "\<forall>b. core (h b) = core (heap st b)" by blast
    then have same: "\<And>b. core (heap st1 b) = core (heap st b)" by simp
    have "\<forall>b \<in> set pre. derivable parse (heap st1 b) \<or> invalidElement parse (heap st1 b)"
      using Cons.prems(1) by (simp add: derivable_core [OF same] invalidElement_core [OF same])
    moreover have "invalidElement parse (heap st1 c)"
      using Cons.prems(2) by (simp add: invalidElement_core [OF same])
    ultimately have "fst (forEach (deriveElement parse) (pre @ c # post) st1) = Inl UnitsMismatch"
      by (rule Cons.IH)
    with d show ?thesis by simp
  qed
qed

lemma update_invalid:
  assumes "elements st = pre @ c # post"
    and "\<forall>b \<in> set pre. derivable parse (heap st b) \<or> invalidElement parse (heap st b)"
    and "invalidElement parse (heap st c)"
  shows "fst (update parse st) = Inl UnitsMismatch"
proof -
  from forEach_derive_invalid [OF assms(2,3), of post] assms(1)
  have "fst (updateElementAttributes parse st) = Inl UnitsMismatch"
    by (simp add: updateElementAttributes_def)
  then show ?thesis
    by (cases "updateElementAttributes parse st") (simp add: update_def)
qed

lemma createElement_unfold:
  "createElement parse opts st =
     (let a = next_addr st;
          st3 = st\<lparr>id_count := id_count st + 1,
                   heap := (heap st)(a :=
                     \<lparr>el_id = (case opt_id opts of None \<Rightarrow> Some (id_count st + 1) | Some j \<Rightarrow> Some j),
                      el_props = opt_props opts, el_outer = opt_outer opts,
                      el_inner = opt_inner opts, el_offsets = None, el_attributes = None\<rparr>),
                   next_addr := a + 1, elements := elements st @ [a]\<rparr>
      in (case fst (update parse st3) of Inl e \<Rightarrow> Inl e | Inr _ \<Rightarrow> Inr a, snd (update parse st3)))"
  by (simp add: createElement_def createID_def Let_def split: prod.splits sum.splits)

lemma createElement_invalid:
  assumes "\<forall>b \<in> set (elements st). derivable parse (heap st b)"
    and "opt_props opts = Some p" and "\<not> disabled p" and "mismatched parse p"
  shows "fst (createElement parse opts st) = Inl UnitsMismatch"
proof -
  let ?a = "next_addr st"
  let ?el = "\<lparr>el_id = (case opt_id opts of None \<Rightarrow> Some (id_count st + 1) | Some j \<Rightarrow> Some j),
              el_props = opt_props opts, el_outer = opt_outer opts,
              el_inner = opt_inner opts, el_offsets = None, el_attributes = None\<rparr>"
  let ?st3 = "st\<lparr>id_count := id_count st + 1, heap := (heap st)(?a := ?el),
                next_addr := ?a + 1, elements := elements st @ [?a]\<rparr>"
  have inv: "invalidElement parse ?el" using assms(2-4) by (simp add: invalidElement_def)
  have "fst (update parse ?st3) = Inl UnitsMismatch"
  proof (rule update_invalid [of _ "elements st" ?a "[]"])
    show "elements ?st3 = elements st @ [?a]" by simp
    show "\<forall>b \<in> set (elements st). derivable parse (heap ?st3 b) \<or> invalidElement parse (heap ?st3 b)"
      using assms(1) inv by simp
    show "invalidElement parse (heap ?st3 ?a)" using inv by simp
  qed
  then show ?thesis by (simp add: createElement_unfold Let_def)
qed

lemma findIndex_Some:
  "findIndex P xs = Some k \<Longrightarrow> k < length xs \<and> P (xs ! k) \<and> (\<forall>j < k. \<not> P (xs ! j))"
proof (induction xs arbitrary: k)
  case Nil
  then show ?case by simp
next
  case (Cons x xs)
  show ?case
  proof (cases "P x")
    case True
    with Cons.prems show ?thesis by simp
  next
    case False
    with Cons.prems obtain k' where k': "findIndex P xs = Some k'" "k = Suc k'" by auto
    from Cons.IH [OF k'(1)] False k'(2) show ?thesis
      by (auto simp add: less_Suc_eq_0_disj)
  qed
qed

lemma findIndex_None: "findIndex P xs = None \<longleftrightarrow> (\<forall>x \<in> set xs. \<not> P x)"
  by (induction xs) auto

lemma updateElement_invalid:
  assumes "findIndex (\<lambda>a. el_id (heap st a) = Some i) (elements st) = Some k"
    and "\<forall>b \<in> set (take k (elements st)). derivable parse (heap st b)"
    and "el_props (assign (Some (heap st (elements st ! k))) opts) = Some p"
    and "\<not> disabled p" and "mismatched parse p"
  shows "fst (updateElement parse i opts st) = Inl UnitsMismatch"
proof -
  let ?a = "next_addr st"
  let ?el = "assign (Some (heap st (elements st ! k))) opts"
  let ?st2 = "st\<lparr>heap := (heap st)(?a := ?el), next_addr := ?a + 1,
                elements := (elements st)[k := ?a]\<rparr>"
  from findIndex_Some [OF assms(1)] have k: "k < length (elements st)" by simp
  have inv: "invalidElement parse ?el" using assms(3-5) by (simp add: invalidElement_def)
  have u: "updateElement parse i opts st = update parse ?st2"
    using assms(1) by (simp add: updateElement_def Let_def)
  have "fst (update parse ?st2) = Inl UnitsMismatch"
  proof (rule update_invalid [of _ "take k (elements st)" ?a "drop (Suc k) (elements st)"])
    show "elements ?st2 = take k (elements st) @ ?a # drop (Suc k) (elements st)"
      using k by (simp add: upd_conv_take_nth_drop)
    show "\<forall>b \<in> set (take k (elements st)).
            derivable parse (heap ?st2 b) \<or> invalidElement parse (heap ?st2 b)"
      using assms(2) inv by simp
    show "invalidElement parse (heap ?st2 ?a)" using inv by simp
  qed
  with u show ?thesis by simp
qed

text \<open>
  C3. \<^verbatim>\<open>_setupOffsets\<close> on an element with props raises the units error when the parsed
  units of the x offsets or of the y offsets differ, and returns the element with its
  offsets when they match. \<^verbatim>\<open>createElement\<close> with an enabled configuration of mismatched
  units returns that error to its caller when the elements already in the registry raise
  nothing in the attribute pass; so does \<^verbatim>\<open>updateElement\<close> of an existing id when the
  merged props are enabled with mismatched units and the elements before it raise nothing.
\<close>

theorem mismatched_units_raise:
  "(el_props el = Some p \<longrightarrow>
      (if mismatched parse p
       then setupOffsets parse el = Inl UnitsMismatch
       else \<exists>ofs. setupOffsets parse el = Inr (el\<lparr>el_offsets := Some ofs\<rparr>)))
   \<and> ((\<forall>b \<in> set (elements st). derivable parse (heap st b))
        \<and> opt_props opts = Some q \<and> \<not> disabled q \<and> mismatched parse q \<longrightarrow>
        fst (createElement parse opts st) = Inl UnitsMismatch)
   \<and> (findIndex (\<lambda>a. el_id (heap st' a) = Some i) (elements st') = Some k
        \<and> (\<forall>b \<in> set (take k (elements st')). derivable parse (heap st' b))
        \<and> el_props (assign (Some (heap st' (elements st' ! k))) opts') = Some r
        \<and> \<not> disabled r \<and> mismatched parse r \<longrightarrow>
        fst (updateElement parse i opts' st') = Inl UnitsMismatch)"
proof (intro conjI impI)
  assume "el_props el = Some p"
  then show "if mismatched parse p
       then setupOffsets parse el = Inl UnitsMismatch
       else \<exists>ofs. setupOffsets parse el = Inr (el\<lparr>el_offsets := Some ofs\<rparr>)"
    by (rule setupOffsets_mismatch)
next
  assume "(\<forall>b \<in> set (elements st). derivable parse (heap st b))
        \<and> opt_props opts = Some q \<and> \<not> disabled q \<and> mismatched parse q"
  then show "fst (createElement parse opts st) = Inl UnitsMismatch"
    by (intro createElement_invalid [of st parse opts q]) simp_all
next
  assume "findIndex (\<lambda>a. el_id (heap st' a) = Some i) (elements st') = Some k
        \<and> (\<forall>b \<in> set (take k (elements st')). derivable parse (heap st' b))
        \<and> el_props (assign (Some (heap st' (elements st' ! k))) opts') = Some r
        \<and> \<not> disabled r \<and> mismatched parse r"
  then show "fst (updateElement parse i opts' st') = Inl UnitsMismatch"
    by (intro updateElement_invalid [of st' i k parse opts' r]) simp_all
qed

lemma sample_mismatched:
  "mismatched parseValueAndUnit mismatchedProps" "\<not> mismatched parseValueAndUnit sampleProps"
  "\<not> disabled mismatchedProps"
  by (simp_all add: mismatched_def mismatchedProps_def sampleProps_def parseValueAndUnit_def)

lemma sample_derivable:
  "\<forall>b \<in> set (elements sampleListener). derivable parseValueAndUnit (heap sampleListener b)"
  using sample_mismatched(2)
  by (simp add: sampleListener_eq derivable_def freshListener_def sampleProps_def)

text \<open>
  The sample props with \<^verbatim>\<open>offsetYMax = 20px\<close> against \<^verbatim>\<open>offsetYMin = -20%\<close>, on the sample
  listener, whose one element is valid and has the id 1.
\<close>

theorem mismatched_units_raise_witness:
  "el_props (emptyObject\<lparr>el_props := Some mismatchedProps\<rparr>) = Some mismatchedProps
   \<and> mismatched parseValueAndUnit mismatchedProps
   \<and> setupOffsets parseValueAndUnit (emptyObject\<lparr>el_props := Some mismatchedProps\<rparr>)
        = Inl UnitsMismatch
   \<and> \<not> mismatched parseValueAndUnit sampleProps
   \<and> (\<exists>ofs. setupOffsets parseValueAndUnit (emptyObject\<lparr>el_props := Some sampleProps\<rparr>)
        = Inr (emptyObject\<lparr>el_props := Some sampleProps, el_offsets := Some ofs\<rparr>))
   \<and> elements sampleListener = [0] \<and> derivable parseValueAndUnit (heap sampleListener 0)
   \<and> opt_props mismatchedOptions = Some mismatchedProps \<and> \<not> disabled mismatchedProps
   \<and> fst (createElement parseValueAndUnit mismatchedOptions sampleListener) = Inl UnitsMismatch
   \<and> findIndex (\<lambda>a. el_id (heap sampleListener a) = Some 1) (elements sampleListener) = Some 0
   \<and> el_props (assign (Some (heap sampleListener (elements sampleListener ! 0)))
        \<lparr>opt_id = None, opt_props = Some mismatchedProps, opt_outer = None, opt_inner = None\<rparr>)
        = Some mismatchedProps
   \<and> fst (updateElement parseValueAndUnit 1
        \<lparr>opt_id = None, opt_props = Some mismatchedProps, opt_outer = None, opt_inner = None\<rparr>
        sampleListener) = Inl UnitsMismatch"
proof -
  let ?o = "\<lparr>opt_id = None, opt_props = Some mismatchedProps, opt_outer = None, opt_inner = None\<rparr>"
  have f: "findIndex (\<lambda>a. el_id (heap sampleListener a) = Some 1) (elements sampleListener) = Some 0"
    by (simp add: sampleListener_eq)
  have a: "el_props (assign (Some (heap sampleListener (elements sampleListener ! 0))) ?o)
        = Some mismatchedProps"
    by (simp add: assign_def)
  have o: "opt_props mismatchedOptions = Some mismatchedProps"
    by (simp add: mismatchedOptions_def)
  show ?thesis
    using mismatched_units_raise [where parse = parseValueAndUnit
        and el = "emptyObject\<lparr>el_props := Some mismatchedProps\<rparr>" and p = mismatchedProps
        and st = sampleListener and opts = mismatchedOptions and q = mismatchedProps
        and st' = sampleListener and i = 1 and k = 0 and opts' = ?o and r = mismatchedProps]
      mismatched_units_raise [where parse = parseValueAndUnit
        and el = "emptyObject\<lparr>el_props := Some sampleProps\<rparr>" and p = sampleProps
        and st = sampleListener and opts = mismatchedOptions and q = mismatchedProps
        and st' = sampleListener and i = 1 and k = 0 and opts' = ?o and r = mismatchedProps]
      sample_mismatched sample_derivable f a o
    by (simp add: sampleListener_eq)
qed

section \<open>The registry across the public methods\<close>

lemma update_elements:
  "elements (snd (update parse st)) = elements st"
  "next_addr (snd (update parse st)) = next_addr st"
  "elements_neg1 (snd (update parse st)) = elements_neg1 st"
  "id_count (snd (update parse st)) = id_count st"
  "core (heap (snd (update parse st)) b) = core (heap st b)"
proof -
  obtain r st' where u: "update parse st = (r, st')" by (cases "update parse st")
  from update_frame [OF u] obtain h s t
    where "st' = st\<lparr>heap := h, ticking := t, style := s\<rparr>" "\<forall>b. core (h b) = core (heap st b)"
    by blast
  with u show "elements (snd (update parse st)) = elements st"
    "next_addr (snd (update parse st)) = next_addr st"
    "elements_neg1 (snd (update parse st)) = elements_neg1 st"
    "id_count (snd (update parse st)) = id_count st"
    "core (heap (snd (update parse st)) b) = core (heap st b)"
    by simp_all
qed

lemma createElement_registry:
  "elements (snd (createElement parse opts st)) = elements st @ [next_addr st]"
  "next_addr (snd (createElement parse opts st)) = next_addr st + 1"
  "id_count (snd (createElement parse opts st)) = id_count st + 1"
  "elements_neg1 (snd (createElement parse opts st)) = elements_neg1 st"
  by (simp_all add: createElement_unfold Let_def update_elements)

lemma createElement_core:
  "core (heap (snd (createElement parse opts st)) b) =
     (if b = next_addr st
      then (case opt_id opts of None \<Rightarrow> Some (id_count st + 1) | Some j \<Rightarrow> Some j,
            opt_props opts, opt_outer opts, opt_inner opts)
      else core (heap st b))"
proof -
  let ?el = "\<lparr>el_id = (case opt_id opts of None \<Rightarrow> Some (id_count st + 1) | Some j \<Rightarrow> Some j),
              el_props = opt_props opts, el_outer = opt_outer opts,
              el_inner = opt_inner opts, el_offsets = None, el_attributes = None\<rparr>"
  have "core (heap (snd (createElement parse opts st)) b) = core (((heap st)(next_addr st := ?el)) b)"
    by (simp add: createElement_unfold Let_def update_elements)
  also have "\<dots> = (if b = next_addr st
      then (case opt_id opts of None \<Rightarrow> Some (id_count st + 1) | Some j \<Rightarrow> Some j,
            opt_props opts, opt_outer opts, opt_inner opts)
      else core (heap st b))"
    by (simp add: core_def)
  finally show ?thesis .
qed

text \<open>
  C10. \<^verbatim>\<open>createElement\<close> is not atomic: when it returns an error to its caller (the units
  error of the update pass in particular), the registry is the old one with the new
  element appended, one entry longer, and the new element carries the props of the options.
\<close>

theorem createElement_not_atomic:
  assumes "fst (createElement parse opts st) = Inl e"
  shows "elements (snd (createElement parse opts st)) = elements st @ [next_addr st]
       \<and> length (elements (snd (createElement parse opts st))) = length (elements st) + 1
       \<and> el_props (heap (snd (createElement parse opts st)) (next_addr st)) = opt_props opts"
proof -
  have "core (heap (snd (createElement parse opts st)) (next_addr st)) =
      (case opt_id opts of None \<Rightarrow> Some (id_count st + 1) | Some j \<Rightarrow> Some j,
       opt_props opts, opt_outer opts, opt_inner opts)"
    by (simp add: createElement_core)
  then have "el_props (heap (snd (createElement parse opts st)) (next_addr st)) = opt_props opts"
    by (simp add: core_def)
  then show ?thesis by (simp add: createElement_registry)
qed

lemma mismatched_created:
  "fst (createElement parseValueAndUnit mismatchedOptions freshListener) = Inl UnitsMismatch"
  by (simp add: run_defs sample_defs mismatchedOptions_def mismatchedProps_def)

text \<open>
  The mismatched configuration on the fresh listener: the caller gets the units error and
  the registry holds the invalid element.
\<close>

theorem createElement_not_atomic_witness:
  "fst (createElement parseValueAndUnit mismatchedOptions freshListener) = Inl UnitsMismatch
   \<and> elements freshListener = []
   \<and> elements (snd (createElement parseValueAndUnit mismatchedOptions freshListener)) = [0]
   \<and> length (elements (snd (createElement parseValueAndUnit mismatchedOptions freshListener))) = 1
   \<and> el_props (heap (snd (createElement parseValueAndUnit mismatchedOptions freshListener)) 0)
        = Some mismatchedProps
   \<and> invalidElement parseValueAndUnit
        (heap (snd (createElement parseValueAndUnit mismatchedOptions freshListener)) 0)"
proof -
  have n: "next_addr freshListener = 0" "elements freshListener = []"
    by (simp_all add: freshListener_def)
  have o: "opt_props mismatchedOptions = Some mismatchedProps"
    by (simp add: mismatchedOptions_def)
  show ?thesis
    using createElement_not_atomic [OF mismatched_created] mismatched_created n o
      sample_mismatched
    by (simp add: invalidElement_def)
qed

lemma updateElement_unknown_unfold:
  assumes "findIndex (\<lambda>a. el_id (heap st a) = Some i) (elements st) = None"
  shows "updateElement parse i opts st =
     update parse (st\<lparr>heap := (heap st)(next_addr st :=
                         assign (map_option (heap st) (elements_neg1 st)) opts),
                      next_addr := next_addr st + 1,
                      elements_neg1 := Some (next_addr st)\<rparr>)"
  using assms by (simp add: updateElement_def Let_def)

text \<open>
  C8. When no element of the registry has the id, \<^verbatim>\<open>updateElement(id, options)\<close> leaves the
  registry as it is: the same references at the same indices (so the same length), and
  the objects they refer to keep their id, props and nodes. The new object goes to the
  property \<^verbatim>\<open>"-1"\<close> of the array, outside its entries.
\<close>

theorem updateElement_unknown_id:
  assumes "\<forall>a \<in> set (elements st). el_id (heap st a) \<noteq> Some i" and "wf_state st"
  shows "elements (snd (updateElement parse i opts st)) = elements st
       \<and> (\<forall>a \<in> set (elements st).
            core (heap (snd (updateElement parse i opts st)) a) = core (heap st a))
       \<and> elements_neg1 (snd (updateElement parse i opts st)) = Some (next_addr st)
       \<and> wf_state (snd (updateElement parse i opts st))"
proof -
  from assms(1) have f: "findIndex (\<lambda>a. el_id (heap st a) = Some i) (elements st) = None"
    by (simp add: findIndex_None)
  have fresh: "\<And>a. a \<in> set (elements st) \<Longrightarrow> a \<noteq> next_addr st"
    using assms(2) by (auto simp add: wf_state_def)
  show ?thesis
    unfolding updateElement_unknown_unfold [OF f]
    using assms(2) fresh by (auto simp add: update_elements wf_state_def)
qed

lemma wf_fresh: "wf_state freshListener"
  by (simp add: wf_state_def freshListener_def)

lemma wf_createElement: "wf_state st \<Longrightarrow> wf_state (snd (createElement parse opts st))"
  by (auto simp add: wf_state_def createElement_registry)

lemma wf_sample: "wf_state sampleListener"
  unfolding sampleListener_def by (rule wf_createElement [OF wf_fresh])

text \<open>The id 7 on the sample listener, whose one element has the id 1.\<close>

theorem updateElement_unknown_id_witness:
  "elements sampleListener = [0] \<and> el_id (heap sampleListener 0) = Some 1
   \<and> wf_state sampleListener
   \<and> elements (snd (updateElement parseValueAndUnit 7 sampleOptions sampleListener)) = [0]
   \<and> core (heap (snd (updateElement parseValueAndUnit 7 sampleOptions sampleListener)) 0)
        = (Some 1, Some sampleProps, Some 0, Some 1)
   \<and> elements_neg1 (snd (updateElement parseValueAndUnit 7 sampleOptions sampleListener)) = Some 1"
proof -
  have h: "\<forall>a \<in> set (elements sampleListener). el_id (heap sampleListener a) \<noteq> Some 7"
    by (simp add: sampleListener_eq)
  have e: "elements sampleListener = [0]" "next_addr sampleListener = 1"
    "core (heap sampleListener 0) = (Some 1, Some sampleProps, Some 0, Some 1)"
    by (simp_all add: sampleListener_eq core_def)
  show ?thesis
    using updateElement_unknown_id [OF h wf_sample, of parseValueAndUnit sampleOptions] wf_sample e
    by (simp add: core_def)
qed

section \<open>The scheduling flag\<close>

lemma positionElement_disabled:
  "el_props (heap st a) = Some p \<Longrightarrow> disabled p \<Longrightarrow> positionElement a st = (Inr (), st)"
  by (simp add: positionElement_def)

lemma positionElement_ticking:
  assumes "positionElement a st = (Inr (), st')"
  shows "ticking st' = (ticking st \<and> \<not> enabledElement (heap st a)) \<and> heap st' = heap st"
proof -
  from positionElement_frame [OF assms] obtain s t
    where f: "st' = st\<lparr>ticking := t, style := s\<rparr>" by blast
  then have h: "heap st' = heap st" by simp
  from assms obtain p where p: "el_props (heap st a) = Some p"
    by (cases "el_props (heap st a)") (simp_all add: positionElement_def)
  show ?thesis
  proof (cases "disabled p")
    case True
    with p assms have "st' = st" by (simp add: positionElement_def)
    with p True show ?thesis by (simp add: enabledElement_def)
  next
    case False
    with p assms have "\<not> ticking st'"
      by (auto simp add: positionElement_def split: sum.splits if_splits)
    with p False h show ?thesis by (simp add: enabledElement_def)
  qed
qed

lemma forEach_position_ticking:
  "forEach positionElement xs st = (Inr (), st') \<Longrightarrow>
   ticking st' = (ticking st \<and> (\<forall>a \<in> set xs. \<not> enabledElement (heap st a))) \<and> heap st' = heap st"
proof (induction xs arbitrary: st)
  case Nil
  then show ?case by simp
next
  case (Cons a xs)
  obtain r1 st1 where d: "positionElement a st = (r1, st1)" by (cases "positionElement a st")
  with Cons.prems obtain u where "r1 = Inr u" by (cases r1) simp_all
  with d have d': "positionElement a st = (Inr (), st1)" by simp
  with Cons.prems have "forEach positionElement xs st1 = (Inr (), st')" by simp
  from Cons.IH [OF this] positionElement_ticking [OF d'] show ?case by auto
qed

lemma handleScroll_frames:
  "frames (handleScroll st) = (if \<not> ticking st \<and> elements st \<noteq> [] then frames st + 1 else frames st)"
  "ticking (handleScroll st) = (ticking st \<or> elements st \<noteq> [])"
  "elements (handleScroll st) = elements st"
  by (simp_all add: handleScroll_def Let_def)

lemma scrollBurst_frames:
  "frames (scrollBurst ys st) =
     (if \<not> ticking st \<and> elements st \<noteq> [] \<and> ys \<noteq> [] then frames st + 1 else frames st)
   \<and> ticking (scrollBurst ys st) = (ticking st \<or> (elements st \<noteq> [] \<and> ys \<noteq> []))
   \<and> elements (scrollBurst ys st) = elements st"
proof (induction ys arbitrary: st)
  case Nil
  then show ?case by (simp add: scrollBurst_def)
next
  case (Cons y ys)
  have "scrollBurst (y # ys) st = scrollBurst ys (handleScroll (st\<lparr>window_scrollY := y\<rparr>))"
    by (simp add: scrollBurst_def)
  with Cons.IH [of "handleScroll (st\<lparr>window_scrollY := y\<rparr>)"] show ?case
    by (auto simp add: handleScroll_frames)
qed

text \<open>
  C7. \<^verbatim>\<open>_handleScroll\<close> requests a frame only when the flag is not set and the registry is
  not empty, and sets the flag then; a burst of scroll events requests at most one frame.
  The frame callback clears the flag only in the iteration of an enabled element: after a
  pass that raises nothing, the flag is still set exactly when it was set before and no
  element of the registry is enabled.
\<close>

theorem ticking_cleared_by_enabled_only:
  "frames (handleScroll st) = (if \<not> ticking st \<and> elements st \<noteq> [] then frames st + 1 else frames st)
   \<and> ticking (handleScroll st) = (ticking st \<or> elements st \<noteq> [])
   \<and> frames (scrollBurst ys st) \<le> frames st + 1
   \<and> (fst (updateElementPositions st) = Inr () \<longrightarrow>
        ticking (snd (updateElementPositions st))
          = (ticking st \<and> (\<forall>a \<in> set (elements st). \<not> enabledElement (heap st a))))"
proof (intro conjI impI)
  show "frames (scrollBurst ys st) \<le> frames st + 1"
    using scrollBurst_frames [of ys st] by simp
next
  assume "fst (updateElementPositions st) = Inr ()"
  then have "forEach positionElement (elements st) st = (Inr (), snd (updateElementPositions st))"
    by (cases "updateElementPositions st") (simp add: updateElementPositions_def)
  from forEach_position_ticking [OF this]
  show "ticking (snd (updateElementPositions st))
          = (ticking st \<and> (\<forall>a \<in> set (elements st). \<not> enabledElement (heap st a)))"
    by simp
qed (simp_all add: handleScroll_frames)

lemma disabled_created:
  "createElement parseValueAndUnit disabledOptions freshListener =
     (Inr 0,
      freshListener\<lparr>elements := [0], next_addr := 1, id_count := 1,
        heap := (heap freshListener)
          (0 := \<lparr>el_id = Some 1, el_props = Some (sampleProps\<lparr>disabled := True\<rparr>),
                 el_outer = Some 0, el_inner = Some 1, el_offsets = None,
                 el_attributes = None\<rparr>)\<rparr>)"
  by (simp add: run_defs sample_defs disabledOptions_def)

text \<open>
  A registry of one disabled element: a scroll event sets the flag and requests a frame,
  the frame leaves the flag set, and the next scroll event requests no frame.
\<close>

theorem ticking_cleared_by_enabled_only_witness:
  "elements disabledListener = [0] \<and> \<not> ticking disabledListener \<and> frames disabledListener = 0
   \<and> ticking (handleScroll disabledListener) \<and> frames (handleScroll disabledListener) = 1
   \<and> animationFrame (handleScroll disabledListener)
        = (Inr (), (handleScroll disabledListener)\<lparr>frames := 0\<rparr>)
   \<and> ticking (snd (animationFrame (handleScroll disabledListener)))
   \<and> frames (snd (animationFrame (handleScroll disabledListener))) = 0
   \<and> frames (handleScroll (snd (animationFrame (handleScroll disabledListener)))) = 0"
proof -
  let ?st = "handleScroll disabledListener"
  have d: "elements disabledListener = [0]" "\<not> ticking disabledListener" "frames disabledListener = 0"
    "el_props (heap disabledListener 0) = Some (sampleProps\<lparr>disabled := True\<rparr>)"
    unfolding disabledListener_def disabled_created by (simp_all add: freshListener_def)
  have s: "ticking ?st" "frames ?st = 1" "elements ?st = [0]" "heap ?st = heap disabledListener"
    using d by (simp_all add: handleScroll_def Let_def)
  have p: "updateElementPositions (?st\<lparr>frames := 0\<rparr>) = (Inr (), ?st\<lparr>frames := 0\<rparr>)"
    using s d(4) by (simp add: updateElementPositions_def positionElement_def)
  have a: "animationFrame ?st = (Inr (), ?st\<lparr>frames := 0\<rparr>)"
    using s p by (simp add: animationFrame_def)
  show ?thesis
    using ticking_cleared_by_enabled_only [of "?st\<lparr>frames := 0\<rparr>" "[]"] d s p a
    by (simp add: enabledElement_def)
qed

section \<open>The offsets of an element\<close>

text \<open>
  C4. On an element with props whose units match, \<^verbatim>\<open>_setupOffsets\<close> stores the four parsed
  offsets and the two resolved units (the unit of the axis, or \<^verbatim>\<open>%\<close> when it is empty).
  \<open>yMin\<close> and \<open>yMax\<close> are the parses of \<^verbatim>\<open>offsetYMin\<close> and \<^verbatim>\<open>offsetYMax\<close>, but \<open>xMin\<close> is the
  parse of \<^verbatim>\<open>offsetXMax\<close> and \<open>xMax\<close> the parse of \<^verbatim>\<open>offsetXMin\<close>: the x offsets are stored
  under each other's name.
\<close>

theorem setupOffsets_offsets:
  assumes "el_props el = Some p" and "\<not> mismatched parse p"
  shows "setupOffsets parse el =
     Inr (el\<lparr>el_offsets := Some
       \<lparr>xUnit = (if ounit (parse (offsetXMax p)) = [] then ''%'' else ounit (parse (offsetXMax p))),
        yUnit = (if ounit (parse (offsetYMin p)) = [] then ''%'' else ounit (parse (offsetYMin p))),
        yMin = parse (offsetYMin p), yMax = parse (offsetYMax p),
        xMin = parse (offsetXMax p), xMax = parse (offsetXMin p)\<rparr>\<rparr>)"
  using assms by (auto simp add: setupOffsets_def mismatched_def Let_def)

text \<open>
  The sample props, \<^verbatim>\<open>offsetXMin = -10%\<close> and \<^verbatim>\<open>offsetXMax = 30%\<close>: \<open>offsets.xMin\<close> is 30
  and \<open>offsets.xMax\<close> is \<open>- 10\<close>.
\<close>

theorem setupOffsets_offsets_witness:
  "el_props (emptyObject\<lparr>el_props := Some sampleProps\<rparr>) = Some sampleProps
   \<and> \<not> mismatched parseValueAndUnit sampleProps
   \<and> setupOffsets parseValueAndUnit (emptyObject\<lparr>el_props := Some sampleProps\<rparr>)
        = Inr (emptyObject\<lparr>el_props := Some sampleProps, el_offsets := Some sampleOffsets\<rparr>)
   \<and> offsetXMin sampleProps = ''-10%'' \<and> offsetXMax sampleProps = ''30%''
   \<and> xMin sampleOffsets = \<lparr>ovalue = 30, ounit = ''%''\<rparr>
   \<and> xMax sampleOffsets = \<lparr>ovalue = - 10, ounit = ''%''\<rparr>
   \<and> xMin sampleOffsets \<noteq> parseValueAndUnit (offsetXMin sampleProps)
   \<and> xMax sampleOffsets \<noteq> parseValueAndUnit (offsetXMax sampleProps)"
proof -
  have p: "el_props (emptyObject\<lparr>el_props := Some sampleProps\<rparr>) = Some sampleProps" by simp
  have v: "parseValueAndUnit (offsetXMin sampleProps) = \<lparr>ovalue = - 10, ounit = ''%''\<rparr>"
    "parseValueAndUnit (offsetXMax sampleProps) = \<lparr>ovalue = 30, ounit = ''%''\<rparr>"
    "parseValueAndUnit (offsetYMin sampleProps) = \<lparr>ovalue = - 20, ounit = ''%''\<rparr>"
    "parseValueAndUnit (offsetYMax sampleProps) = \<lparr>ovalue = 20, ounit = ''%''\<rparr>"
    by (simp_all add: sampleProps_def parseValueAndUnit_def)
  show ?thesis
    using setupOffsets_offsets [OF p sample_mismatched(2)] sample_mismatched(2) v
    by (simp add: sampleOffsets_def sampleProps_def)
qed

section \<open>The cached attributes\<close>

text \<open>
  C5. On an element with offsets, props and a node to measure, \<^verbatim>\<open>_cacheAttributes\<close> stores:
  top = \<open>rect.top + window.scrollY\<close> plus \<open>yMinPx\<close> when \<open>slowerScrollRate\<close> and minus
  \<open>yMaxPx\<close> otherwise; bottom = \<open>rect.bottom + window.scrollY\<close> plus \<open>yMaxPx\<close> when
  \<open>slowerScrollRate\<close> and minus \<open>yMinPx\<close> otherwise; totalDist = windowHeight + element
  height + \<open>|yMinPx|\<close> + \<open>yMaxPx\<close>; and the pixel offsets, which for percent units are the
  offset value times a hundredth of the element's height (y axis) or width (x axis).
\<close>

theorem cacheAttributes_geometry:
  assumes "el_offsets el = Some ofs" and "el_props el = Some p" and "el_outer el = Some n"
  shows "\<exists>atts. cacheAttributes st el = Inr (el\<lparr>el_attributes := Some atts\<rparr>)
     \<and> attr_top atts = rect_top (layout st n) + window_scrollY st
          + (if slowerScrollRate p then yMinPx atts else - yMaxPx atts)
     \<and> attr_bottom atts = rect_bottom (layout st n) + window_scrollY st
          + (if slowerScrollRate p then yMaxPx atts else - yMinPx atts)
     \<and> totalDist atts = windowHeight atts + elHeight atts + \<bar>yMinPx atts\<bar> + yMaxPx atts
     \<and> windowHeight atts = (if window_innerHeight st \<noteq> 0 then window_innerHeight st
                            else html_clientHeight st)
     \<and> elHeight atts = offsetHeight (layout st n) \<and> elWidth atts = offsetWidth (layout st n)
     \<and> yMinPx atts = (if ounit (yMax ofs) = ''%'' \<or> ounit (yMin ofs) = ''%''
                      then ovalue (yMin ofs) * (elHeight atts / 100) else ovalue (yMin ofs))
     \<and> yMaxPx atts = (if ounit (yMax ofs) = ''%'' \<or> ounit (yMin ofs) = ''%''
                      then ovalue (yMax ofs) * (elHeight atts / 100) else ovalue (yMax ofs))
     \<and> xMinPx atts = (if ounit (xMax ofs) = ''%'' \<or> ounit (xMin ofs) = ''%''
                      then ovalue (xMin ofs) * (elWidth atts / 100) else ovalue (xMin ofs))
     \<and> xMaxPx atts = (if ounit (xMax ofs) = ''%'' \<or> ounit (xMin ofs) = ''%''
                      then ovalue (xMax ofs) * (elWidth atts / 100) else ovalue (xMax ofs))"
proof -
  define g where "g = layout st n"
  define wh where "wh = (if window_innerHeight st \<noteq> 0 then window_innerHeight st
                         else html_clientHeight st)"
  define yP where "yP \<longleftrightarrow> ounit (yMax ofs) = ''%'' \<or> ounit (yMin ofs) = ''%''"
  define xP where "xP \<longleftrightarrow> ounit (xMax ofs) = ''%'' \<or> ounit (xMin ofs) = ''%''"
  define yMx where "yMx = (if yP then ovalue (yMax ofs) * (offsetHeight g / 100) else ovalue (yMax ofs))"
  define yMn where "yMn = (if yP then ovalue (yMin ofs) * (offsetHeight g / 100) else ovalue (yMin ofs))"
  define xMx where "xMx = (if xP then ovalue (xMax ofs) * (offsetWidth g / 100) else ovalue (xMax ofs))"
  define xMn where "xMn = (if xP then ovalue (xMin ofs) * (offsetWidth g / 100) else ovalue (xMin ofs))"
  define atts where "atts =
     \<lparr>attr_top = rect_top g + window_scrollY st + (if slowerScrollRate p then yMn else yMx * - 1),
      attr_bottom = rect_bottom g + window_scrollY st + (if slowerScrollRate p then yMx else yMn * - 1),
      elHeight = offsetHeight g, elWidth = offsetWidth g, yMaxPx = yMx, yMinPx = yMn,
      xMaxPx = xMx, xMinPx = xMn, totalDist = wh + (offsetHeight g + \<bar>yMn\<bar> + yMx),
      windowHeight = wh\<rparr>"
  have run: "cacheAttributes st el = Inr (el\<lparr>el_attributes := Some atts\<rparr>)"
    using assms
    by (simp add: cacheAttributes_def Let_def atts_def g_def wh_def yP_def xP_def yMx_def
        yMn_def xMx_def xMn_def)
  have fields: "attr_top atts = rect_top (layout st n) + window_scrollY st
          + (if slowerScrollRate p then yMinPx atts else - yMaxPx atts)"
    "attr_bottom atts = rect_bottom (layout st n) + window_scrollY st
          + (if slowerScrollRate p then yMaxPx atts else - yMinPx atts)"
    "totalDist atts = windowHeight atts + elHeight atts + \<bar>yMinPx atts\<bar> + yMaxPx atts"
    "windowHeight atts = (if window_innerHeight st \<noteq> 0 then window_innerHeight st
                            else html_clientHeight st)"
    "elHeight atts = offsetHeight (layout st n)" "elWidth atts = offsetWidth (layout st n)"
    by (simp_all add: atts_def g_def wh_def)
  have px: "yMinPx atts = (if ounit (yMax ofs) = ''%'' \<or> ounit (yMin ofs) = ''%''
                      then ovalue (yMin ofs) * (elHeight atts / 100) else ovalue (yMin ofs))"
    "yMaxPx atts = (if ounit (yMax ofs) = ''%'' \<or> ounit (yMin ofs) = ''%''
                      then ovalue (yMax ofs) * (elHeight atts / 100) else ovalue (yMax ofs))"
    "xMinPx atts = (if ounit (xMax ofs) = ''%'' \<or> ounit (xMin ofs) = ''%''
                      then ovalue (xMin ofs) * (elWidth atts / 100) else ovalue (xMin ofs))"
    "xMaxPx atts = (if ounit (xMax ofs) = ''%'' \<or> ounit (xMin ofs) = ''%''
                      then ovalue (xMax ofs) * (elWidth atts / 100) else ovalue (xMax ofs))"
    by (simp_all add: atts_def yMn_def yMx_def xMn_def xMx_def yP_def xP_def g_def)
  from run fields px show ?thesis by blast
qed

text \<open>The element of the sample listener: 100 by 200 pixels, 350 pixels below the top.\<close>

theorem cacheAttributes_geometry_witness:
  "el_offsets (heap sampleListener 0) = Some sampleOffsets
   \<and> el_props (heap sampleListener 0) = Some sampleProps
   \<and> el_outer (heap sampleListener 0) = Some 0
   \<and> (\<exists>atts. cacheAttributes sampleListener (heap sampleListener 0)
                = Inr ((heap sampleListener 0)\<lparr>el_attributes := Some atts\<rparr>)
        \<and> attr_top atts = 330 \<and> attr_bottom atts = 470 \<and> totalDist atts = 940
        \<and> windowHeight atts = 800 \<and> elHeight atts = 100 \<and> elWidth atts = 200
        \<and> yMinPx atts = - 20 \<and> yMaxPx atts = 20 \<and> xMinPx atts = 60 \<and> xMaxPx atts = - 20)"
proof -
  have h: "el_offsets (heap sampleListener 0) = Some sampleOffsets"
    "el_props (heap sampleListener 0) = Some sampleProps"
    "el_outer (heap sampleListener 0) = Some 0"
    by (simp_all add: sampleListener_eq)
  have e: "layout sampleListener 0
             = \<lparr>rect_top = 350, rect_bottom = 450, offsetHeight = 100, offsetWidth = 200\<rparr>"
    "window_scrollY sampleListener = 0" "window_innerHeight sampleListener = 800"
    "\<not> slowerScrollRate sampleProps"
    by (simp_all add: sampleListener_eq freshListener_def sampleProps_def)
  from cacheAttributes_geometry [OF h, of sampleListener] obtain atts
    where a: "cacheAttributes sampleListener (heap sampleListener 0)
                = Inr ((heap sampleListener 0)\<lparr>el_attributes := Some atts\<rparr>)"
      "attr_top atts = rect_top (layout sampleListener 0) + window_scrollY sampleListener
          + (if slowerScrollRate sampleProps then yMinPx atts else - yMaxPx atts)"
      "attr_bottom atts = rect_bottom (layout sampleListener 0) + window_scrollY sampleListener
          + (if slowerScrollRate sampleProps then yMaxPx atts else - yMinPx atts)"
      "totalDist atts = windowHeight atts + elHeight atts + \<bar>yMinPx atts\<bar> + yMaxPx atts"
      "windowHeight atts = (if window_innerHeight sampleListener \<noteq> 0
                            then window_innerHeight sampleListener
                            else html_clientHeight sampleListener)"
      "elHeight atts = offsetHeight (layout sampleListener 0)"
      "elWidth atts = offsetWidth (layout sampleListener 0)"
      "yMinPx atts = (if ounit (yMax sampleOffsets) = ''%'' \<or> ounit (yMin sampleOffsets) = ''%''
                      then ovalue (yMin sampleOffsets) * (elHeight atts / 100)
                      else ovalue (yMin sampleOffsets))"
      "yMaxPx atts = (if ounit (yMax sampleOffsets) = ''%'' \<or> ounit (yMin sampleOffsets) = ''%''
                      then ovalue (yMax sampleOffsets) * (elHeight atts / 100)
                      else ovalue (yMax sampleOffsets))"
      "xMinPx atts = (if ounit (xMax sampleOffsets) = ''%'' \<or> ounit (xMin sampleOffsets) = ''%''
                      then ovalue (xMin sampleOffsets) * (elWidth atts / 100)
                      else ovalue (xMin sampleOffsets))"
      "xMaxPx atts = (if ounit (xMax sampleOffsets) = ''%'' \<or> ounit (xMin sampleOffsets) = ''%''
                      then ovalue (xMax sampleOffsets) * (elWidth atts / 100)
                      else ovalue (xMax sampleOffsets))"
    by blast
  have hw: "elHeight atts = 100" "elWidth atts = 200" "windowHeight atts = 800"
    using a(5-7) e by simp_all
  have px: "yMinPx atts = - 20" "yMaxPx atts = 20" "xMinPx atts = 60" "xMaxPx atts = - 20"
    using a(8-11) hw by (simp_all add: sampleOffsets_def)
  have tb: "attr_top atts = 330" "attr_bottom atts = 470" "totalDist atts = 940"
    using a(2-4) e hw px by simp_all
  from a(1) hw px tb h show ?thesis by blast
qed

section \<open>Monotonicity and round trip\<close>

text \<open>
  C6. With a positive \<open>totalDist\<close>, \<open>percentMoved\<close> does not decrease when the scroll position
  grows. The style that \<^verbatim>\<open>_setParallaxStyles\<close> writes is determined by the element and the
  scroll position: styling at a position, then at another, then at the first again gives
  the state of the first styling.
\<close>

theorem percentMoved_mono_roundtrip:
  "(0 < totalDist a \<and> s1 \<le> s2 \<longrightarrow> percentMoved s1 a \<le> percentMoved s2 a)
   \<and> (setParallaxStyles el (st\<lparr>scrollY := s1\<rparr>) = Inr st1
        \<and> setParallaxStyles el (st1\<lparr>scrollY := s2\<rparr>) = Inr st2
        \<and> setParallaxStyles el (st2\<lparr>scrollY := s1\<rparr>) = Inr st3 \<longrightarrow> st3 = st1)"
proof (intro conjI impI)
  assume "0 < totalDist a \<and> s1 \<le> s2"
  then have "(- (attr_top a - s1) + windowHeight a) / totalDist a * 100
           \<le> (- (attr_top a - s2) + windowHeight a) / totalDist a * 100"
    by (intro mult_right_mono divide_right_mono) simp_all
  then show "percentMoved s1 a \<le> percentMoved s2 a"
    by (simp only: percentMoved_eq)
next
  assume r: "setParallaxStyles el (st\<lparr>scrollY := s1\<rparr>) = Inr st1
        \<and> setParallaxStyles el (st1\<lparr>scrollY := s2\<rparr>) = Inr st2
        \<and> setParallaxStyles el (st2\<lparr>scrollY := s1\<rparr>) = Inr st3"
  then obtain p atts ofs n where el: "el_props el = Some p" "el_attributes el = Some atts"
    "el_offsets el = Some ofs" "el_inner el = Some n"
    by (auto simp add: setParallaxStyles_def Let_def split: option.splits)
  from r show "st3 = st1"
    unfolding setParallaxStyles_eq [OF el] by auto
qed

text \<open>
  The sample element at the scroll positions 0 and 470, where the percent is 50 and 100:
  styling at 0, at 470 and at 0 again ends in the state of the first styling.
\<close>

theorem percentMoved_mono_roundtrip_witness:
  "0 < totalDist sampleAttributes \<and> (0::real) \<le> 470
   \<and> percentMoved 0 sampleAttributes = 50 \<and> percentMoved 470 sampleAttributes = 100
   \<and> percentMoved 0 sampleAttributes \<le> percentMoved 470 sampleAttributes
   \<and> setParallaxStyles (heap sampleListener 0) (sampleListener\<lparr>scrollY := 0\<rparr>)
        = Inr (sampleListener\<lparr>scrollY := 0,
                 style := (style sampleListener)(1 := ParallaxStyles 10 ''%'' 0 ''%'')\<rparr>)
   \<and> setParallaxStyles (heap sampleListener 0)
        (sampleListener\<lparr>scrollY := 0,
           style := (style sampleListener)(1 := ParallaxStyles 10 ''%'' 0 ''%'')\<rparr>
         \<lparr>scrollY := 470\<rparr>)
        = Inr (sampleListener\<lparr>scrollY := 470,
                 style := (style sampleListener)(1 := ParallaxStyles 30 ''%'' (- 20) ''%'')\<rparr>)
   \<and> setParallaxStyles (heap sampleListener 0)
        (sampleListener\<lparr>scrollY := 470,
           style := (style sampleListener)(1 := ParallaxStyles 30 ''%'' (- 20) ''%'')\<rparr>
         \<lparr>scrollY := 0\<rparr>)
        = Inr (sampleListener\<lparr>scrollY := 0,
                 style := (style sampleListener)(1 := ParallaxStyles 10 ''%'' 0 ''%'')\<rparr>)"
proof -
  let ?el = "heap sampleListener 0"
  let ?st1 = "sampleListener\<lparr>scrollY := 0,
                 style := (style sampleListener)(1 := ParallaxStyles 10 ''%'' 0 ''%'')\<rparr>"
  let ?st2 = "sampleListener\<lparr>scrollY := 470,
                 style := (style sampleListener)(1 := ParallaxStyles 30 ''%'' (- 20) ''%'')\<rparr>"
  have el: "el_props ?el = Some sampleProps" "el_attributes ?el = Some sampleAttributes"
    "el_offsets ?el = Some sampleOffsets" "el_inner ?el = Some 1"
    by (simp_all add: sampleListener_eq)
  have pm: "percentMoved 0 sampleAttributes = 50" "percentMoved 470 sampleAttributes = 100"
    "0 < totalDist sampleAttributes"
    by (simp_all add: percentMoved_def sampleAttributes_def)
  have v: "\<not> slowerScrollRate sampleProps" "ovalue (yMin sampleOffsets) = - 20"
    "ovalue (yMax sampleOffsets) = 20" "ovalue (xMin sampleOffsets) = 30"
    "ovalue (xMax sampleOffsets) = - 10" "xUnit sampleOffsets = ''%''" "yUnit sampleOffsets = ''%''"
    by (simp_all add: sample_defs)
  have r1: "setParallaxStyles ?el (sampleListener\<lparr>scrollY := 0\<rparr>) = Inr ?st1"
    unfolding setParallaxStyles_eq [OF el] by (simp add: pm v scaleBetween_def)
  have r2: "setParallaxStyles ?el (?st1\<lparr>scrollY := 470\<rparr>) = Inr ?st2"
    unfolding setParallaxStyles_eq [OF el] by (simp add: pm v scaleBetween_def)
  have r3: "setParallaxStyles ?el (?st2\<lparr>scrollY := 0\<rparr>) = Inr ?st1"
    unfolding setParallaxStyles_eq [OF el] by (simp add: pm v scaleBetween_def)
  show ?thesis
    using percentMoved_mono_roundtrip [of sampleAttributes 0 470 ?el sampleListener ?st1 ?st2 ?st1]
      pm r1 r2 r3
    by simp
qed

section \<open>Element ids\<close>

lemma registryIds_update: "registryIds (snd (update parse st)) = registryIds st"
proof -
  have "\<And>a. el_id (heap (snd (update parse st)) a) = el_id (heap st a)"
    using update_elements(5) [of parse st] by (simp add: core_def)
  then show ?thesis by (simp add: registryIds_def update_elements)
qed

lemma wf_update: "wf_state (snd (update parse st)) = wf_state st"
  by (simp add: wf_state_def update_elements)

lemma ids_ok_update: "ids_ok (snd (update parse st)) = ids_ok st"
  by (simp add: ids_ok_def wf_update registryIds_update update_elements)

lemma ids_ok_distinct:
  assumes "ids_ok st"
  shows "distinct (registryIds st)"
proof -
  from assms obtain js where js: "registryIds st = map Some js" "sorted_wrt (<) js"
    by (auto simp add: ids_ok_def)
  from js(2) have "distinct js" by (simp add: strict_sorted_iff)
  with js(1) show ?thesis by (simp add: distinct_map)
qed

lemma registryIds_createElement:
  assumes "wf_state st"
  shows "registryIds (snd (createElement parse opts st)) =
     registryIds st @ [case opt_id opts of None \<Rightarrow> Some (id_count st + 1) | Some j \<Rightarrow> Some j]"
proof -
  have fresh: "\<And>a. a \<in> set (elements st) \<Longrightarrow> a \<noteq> next_addr st"
    using assms by (auto simp add: wf_state_def)
  have id: "\<And>b. el_id (heap (snd (createElement parse opts st)) b) =
      (if b = next_addr st
       then (case opt_id opts of None \<Rightarrow> Some (id_count st + 1) | Some j \<Rightarrow> Some j)
       else el_id (heap st b))"
  proof -
    fix b
    from createElement_core [of parse opts st b] show "el_id (heap (snd (createElement parse opts st)) b) =
      (if b = next_addr st
       then (case opt_id opts of None \<Rightarrow> Some (id_count st + 1) | Some j \<Rightarrow> Some j)
       else el_id (heap st b))"
      by (cases "b = next_addr st") (simp_all add: core_def)
  qed
  show ?thesis
    using fresh by (simp add: registryIds_def createElement_registry id)
qed

lemma ids_ok_createElement:
  assumes "ids_ok st" and "opt_id opts = None"
  shows "ids_ok (snd (createElement parse opts st))"
    and "registryIds (snd (createElement parse opts st)) = registryIds st @ [Some (id_count st + 1)]"
proof -
  from assms(1) have wf: "wf_state st" by (simp add: ids_ok_def)
  from assms(1) obtain js where js: "registryIds st = map Some js" "sorted_wrt (<) js"
    "\<forall>j \<in> set js. j \<le> id_count st"
    by (auto simp add: ids_ok_def)
  show r: "registryIds (snd (createElement parse opts st)) = registryIds st @ [Some (id_count st + 1)]"
    using registryIds_createElement [OF wf, of parse opts] assms(2) by simp
  have "registryIds (snd (createElement parse opts st)) = map Some (js @ [id_count st + 1])"
    using r js(1) by simp
  moreover have "sorted_wrt (<) (js @ [id_count st + 1])"
    using js(2,3) by (auto simp add: sorted_wrt_append)
  moreover have "\<forall>j \<in> set (js @ [id_count st + 1]). j \<le> id_count (snd (createElement parse opts st))"
    using js(3) by (auto simp add: createElement_registry)
  ultimately show "ids_ok (snd (createElement parse opts st))"
    unfolding ids_ok_def using wf_createElement [OF wf] by blast
qed

lemma el_id_assign: "opt_id opts = None \<Longrightarrow> el_id (assign (Some e) opts) = el_id e"
  by (simp add: assign_def)

lemma updateElement_known_unfold:
  assumes "findIndex (\<lambda>a. el_id (heap st a) = Some i) (elements st) = Some k"
  shows "updateElement parse i opts st =
     update parse (st\<lparr>heap := (heap st)(next_addr st :=
                         assign (Some (heap st (elements st ! k))) opts),
                      next_addr := next_addr st + 1,
                      elements := (elements st)[k := next_addr st]\<rparr>)"
  using assms by (simp add: updateElement_def Let_def)

lemma updateElement_ids:
  assumes "wf_state st" and "opt_id opts = None"
  shows "registryIds (snd (updateElement parse i opts st)) = registryIds st"
    and "wf_state (snd (updateElement parse i opts st))"
    and "id_count (snd (updateElement parse i opts st)) = id_count st"
    and "\<forall>b \<in> set (elements st). el_id (heap (snd (updateElement parse i opts st)) b) = el_id (heap st b)"
proof -
  let ?a = "next_addr st"
  have fresh: "\<And>b. b \<in> set (elements st) \<Longrightarrow> b \<noteq> ?a" "\<And>b. b \<in> set (elements st) \<Longrightarrow> b < ?a"
    using assms(1) by (auto simp add: wf_state_def)
  have upd_id: "\<And>s b. el_id (heap (snd (update parse s)) b) = el_id (heap s b)"
  proof -
    fix s b
    from update_elements(5) [of parse s b] show "el_id (heap (snd (update parse s)) b) = el_id (heap s b)"
      by (simp add: core_def)
  qed
  have "registryIds (snd (updateElement parse i opts st)) = registryIds st
      \<and> wf_state (snd (updateElement parse i opts st))
      \<and> id_count (snd (updateElement parse i opts st)) = id_count st
      \<and> (\<forall>b \<in> set (elements st). el_id (heap (snd (updateElement parse i opts st)) b) = el_id (heap st b))"
  proof (cases "findIndex (\<lambda>a. el_id (heap st a) = Some i) (elements st)")
    case None
    show ?thesis
      unfolding updateElement_unknown_unfold [OF None]
      using fresh
      by (auto simp add: registryIds_def update_elements upd_id wf_state_def intro: less_SucI)
  next
    case (Some k)
    from findIndex_Some [OF Some] have k: "k < length (elements st)" by simp
    let ?el = "assign (Some (heap st (elements st ! k))) opts"
    let ?st2 = "st\<lparr>heap := (heap st)(?a := ?el), next_addr := ?a + 1,
                  elements := (elements st)[k := ?a]\<rparr>"
    have ids: "map (\<lambda>b. el_id (heap ?st2 b)) ((elements st)[k := ?a])
             = map (\<lambda>b. el_id (heap st b)) (elements st)"
    proof (rule nth_equalityI)
      show "length (map (\<lambda>b. el_id (heap ?st2 b)) ((elements st)[k := ?a]))
          = length (map (\<lambda>b. el_id (heap st b)) (elements st))" by simp
    next
      fix j assume "j < length (map (\<lambda>b. el_id (heap ?st2 b)) ((elements st)[k := ?a]))"
      then have j: "j < length (elements st)" by simp
      show "map (\<lambda>b. el_id (heap ?st2 b)) ((elements st)[k := ?a]) ! j
          = map (\<lambda>b. el_id (heap st b)) (elements st) ! j"
      proof (cases "j = k")
        case True
        with k show ?thesis by (simp add: el_id_assign [OF assms(2)])
      next
        case False
        with j fresh(1) [of "elements st ! j"] show ?thesis by simp
      qed
    qed
    have wf2: "\<forall>b \<in> set ((elements st)[k := ?a]). b < ?a + 1"
    proof
      fix b assume "b \<in> set ((elements st)[k := ?a])"
      then have "b = ?a \<or> b \<in> set (elements st)"
        using set_update_subset_insert [of "elements st" k ?a] by auto
      with fresh(2) [of b] show "b < ?a + 1" by auto
    qed
    show ?thesis
      unfolding updateElement_known_unfold [OF Some]
      using ids wf2 fresh by (auto simp add: registryIds_def update_elements upd_id wf_state_def)
  qed
  then show "registryIds (snd (updateElement parse i opts st)) = registryIds st"
    and "wf_state (snd (updateElement parse i opts st))"
    and "id_count (snd (updateElement parse i opts st)) = id_count st"
    and "\<forall>b \<in> set (elements st). el_id (heap (snd (updateElement parse i opts st)) b) = el_id (heap st b)"
    by simp_all
qed

lemma ids_ok_updateElement:
  assumes "ids_ok st" and "opt_id opts = None"
  shows "ids_ok (snd (updateElement parse i opts st))"
proof -
  from assms(1) have wf: "wf_state st" by (simp add: ids_ok_def)
  from assms(1) updateElement_ids [OF wf assms(2), of parse i] show ?thesis
    by (simp add: ids_ok_def)
qed

lemma indexOf_Some: "indexOf xs x = Some k \<Longrightarrow> k < length xs"
  using findIndex_Some [of "\<lambda>y. y = x" xs k] by (simp add: indexOf_def)

lemma removeElement_ids:
  "registryIds (removeElement a st) =
     (case indexOf (elements st) a of
        None \<Rightarrow> registryIds st
      | Some k \<Rightarrow> take k (registryIds st) @ drop (Suc k) (registryIds st))"
  by (simp add: removeElement_def registryIds_def take_map drop_map split: option.splits)

lemma sorted_wrt_remove_nth:
  assumes "sorted_wrt P xs"
  shows "sorted_wrt P (take k xs @ drop (Suc k) xs)"
proof -
  have "sorted_wrt P (take k xs @ drop k xs)" using assms by simp
  then have "\<forall>x \<in> set (take k xs). \<forall>y \<in> set (drop k xs). P x y"
    unfolding sorted_wrt_append by blast
  moreover have "set (drop (Suc k) xs) \<subseteq> set (drop k xs)"
    by (simp add: set_drop_subset_set_drop)
  ultimately have "\<forall>x \<in> set (take k xs). \<forall>y \<in> set (drop (Suc k) xs). P x y" by blast
  with assms show ?thesis
    by (simp add: sorted_wrt_append sorted_wrt_take sorted_wrt_drop)
qed

lemma ids_ok_removeElement:
  assumes "ids_ok st"
  shows "ids_ok (removeElement a st)"
proof (cases "indexOf (elements st) a")
  case None
  with assms show ?thesis by (simp add: removeElement_def)
next
  case (Some k)
  from assms obtain js where js: "registryIds st = map Some js" "sorted_wrt (<) js"
    "\<forall>j \<in> set js. j \<le> id_count st" and wf: "wf_state st"
    by (auto simp add: ids_ok_def)
  let ?js = "take k js @ drop (Suc k) js"
  have "registryIds (removeElement a st) = map Some ?js"
    using Some js(1) by (simp add: removeElement_ids take_map drop_map)
  moreover have "sorted_wrt (<) ?js" using js(2) by (rule sorted_wrt_remove_nth)
  moreover have "\<forall>j \<in> set ?js. j \<le> id_count (removeElement a st)"
    using js(3) Some by (auto simp add: removeElement_def dest: in_set_takeD in_set_dropD)
  moreover have "wf_state (removeElement a st)"
    using wf Some by (auto simp add: wf_state_def removeElement_def dest: in_set_takeD in_set_dropD)
  ultimately show ?thesis unfolding ids_ok_def by blast
qed

lemma handleScroll_ids:
  "registryIds (handleScroll st) = registryIds st" "ids_ok (handleScroll st) = ids_ok st"
  by (simp_all add: handleScroll_def Let_def registryIds_def ids_ok_def wf_state_def)

lemma updateElementPositions_ids:
  "registryIds (snd (updateElementPositions st)) = registryIds st"
  "ids_ok (snd (updateElementPositions st)) = ids_ok st"
proof -
  obtain r st' where u: "updateElementPositions st = (r, st')" by (cases "updateElementPositions st")
  then have "forEach positionElement (elements st) st = (r, st')"
    by (simp add: updateElementPositions_def)
  from forEach_position_frame [OF this] obtain s t where "st' = st\<lparr>ticking := t, style := s\<rparr>"
    by blast
  with u show "registryIds (snd (updateElementPositions st)) = registryIds st"
    "ids_ok (snd (updateElementPositions st)) = ids_ok st"
    by (simp_all add: registryIds_def ids_ok_def wf_state_def)
qed

lemma animationFrame_ids:
  "registryIds (snd (animationFrame st)) = registryIds st"
  "ids_ok (snd (animationFrame st)) = ids_ok st"
proof -
  have f: "\<And>n. registryIds (st\<lparr>frames := n\<rparr>) = registryIds st"
    "\<And>n. ids_ok (st\<lparr>frames := n\<rparr>) = ids_ok st"
    by (simp_all add: registryIds_def ids_ok_def wf_state_def)
  show "registryIds (snd (animationFrame st)) = registryIds st"
    "ids_ok (snd (animationFrame st)) = ids_ok st"
    by (simp_all add: animationFrame_def updateElementPositions_ids f)
qed

lemma ids_ok_empty: "elements st = [] \<Longrightarrow> ids_ok st"
  by (simp add: ids_ok_def wf_state_def registryIds_def)

lemma ids_ok_sample: "ids_ok sampleListener"
  unfolding sampleListener_def
  by (rule ids_ok_createElement(1)) (simp_all add: ids_ok_empty freshListener_def sampleOptions_def)

lemma sample_ids: "registryIds sampleListener = [Some 1]" "id_count sampleListener = 1"
  by (simp_all add: registryIds_def sampleListener_eq)

text \<open>
  C9, as stated, fails when the options carry an \<^verbatim>\<open>id\<close> key. On the sample listener, whose
  one element has the id 1, \<^verbatim>\<open>createElement\<close> with the options \<^verbatim>\<open>{id: 1, ...}\<close> gives a
  second element with the id 1, and \<^verbatim>\<open>updateElement(1, {id: 5})\<close> changes the id of the
  first to 5.
\<close>

theorem ids_not_protected_counterexample:
  "ids_ok sampleListener
   \<and> registryIds sampleListener = [Some 1]
   \<and> registryIds (snd (createElement parseValueAndUnit idOptions sampleListener))
        = [Some 1, Some 1]
   \<and> \<not> distinct (registryIds (snd (createElement parseValueAndUnit idOptions sampleListener)))
   \<and> registryIds (snd (updateElement parseValueAndUnit 1
        \<lparr>opt_id = Some 5, opt_props = None, opt_outer = None, opt_inner = None\<rparr> sampleListener))
        = [Some 5]"
proof -
  have wf: "wf_state sampleListener" by (rule wf_sample)
  have c: "registryIds (snd (createElement parseValueAndUnit idOptions sampleListener))
        = [Some 1, Some 1]"
    using registryIds_createElement [OF wf, of parseValueAndUnit idOptions]
    by (simp add: sample_ids idOptions_def)
  let ?o = "\<lparr>opt_id = Some 5, opt_props = None, opt_outer = None, opt_inner = None\<rparr>"
  have f: "findIndex (\<lambda>a. el_id (heap sampleListener a) = Some 1) (elements sampleListener) = Some 0"
    by (simp add: sampleListener_eq)
  have u: "registryIds (snd (updateElement parseValueAndUnit 1 ?o sampleListener)) = [Some 5]"
    unfolding updateElement_known_unfold [OF f] registryIds_update
    by (simp add: registryIds_def sampleListener_eq assign_def)
  from ids_ok_sample sample_ids(1) c u show ?thesis by simp
qed

text \<open>
  C9, amended. As long as no options object carries an \<^verbatim>\<open>id\<close> key, the ids of the registry
  are unique and assigned in increasing order, and no method changes them: a listener with
  an empty registry satisfies \<open>ids_ok\<close>; in a state that satisfies it the ids are distinct,
  \<^verbatim>\<open>createElement\<close> appends the id \<open>id_count + 1\<close>, which is above every id of the registry,
  \<^verbatim>\<open>updateElement\<close> keeps the ids of the registry, \<^verbatim>\<open>removeElement\<close> removes one entry and
  keeps the others, and \<^verbatim>\<open>update\<close>, the scroll handler and the animation frame leave the
  ids as they are; every method preserves \<open>ids_ok\<close>, and the objects of the registry keep
  their id across \<^verbatim>\<open>createElement\<close> (with any options) and \<^verbatim>\<open>updateElement\<close>.
\<close>

theorem ids_unique_without_id_option:
  "(elements st0 = [] \<longrightarrow> ids_ok st0)
   \<and> (ids_ok st \<longrightarrow>
        distinct (registryIds st)
      \<and> (opt_id opts = None \<longrightarrow>
           ids_ok (snd (createElement parse opts st))
         \<and> registryIds (snd (createElement parse opts st))
             = registryIds st @ [Some (id_count st + 1)]
         \<and> (\<forall>x \<in> set (registryIds st). \<exists>j. x = Some j \<and> j < id_count st + 1)
         \<and> ids_ok (snd (updateElement parse i opts st))
         \<and> registryIds (snd (updateElement parse i opts st)) = registryIds st
         \<and> (\<forall>b \<in> set (elements st).
               el_id (heap (snd (updateElement parse i opts st)) b) = el_id (heap st b)))
      \<and> (\<forall>b \<in> set (elements st).
            el_id (heap (snd (createElement parse opts st)) b) = el_id (heap st b))
      \<and> ids_ok (removeElement a st)
      \<and> registryIds (removeElement a st)
          = (case indexOf (elements st) a of
               None \<Rightarrow> registryIds st
             | Some k \<Rightarrow> take k (registryIds st) @ drop (Suc k) (registryIds st))
      \<and> ids_ok (snd (update parse st))
      \<and> registryIds (snd (update parse st)) = registryIds st
      \<and> ids_ok (handleScroll st) \<and> registryIds (handleScroll st) = registryIds st
      \<and> ids_ok (snd (animationFrame st))
      \<and> registryIds (snd (animationFrame st)) = registryIds st)"
proof (intro conjI impI)
  assume "elements st0 = []"
  then show "ids_ok st0" by (rule ids_ok_empty)
next
  assume ok: "ids_ok st"
  then show "distinct (registryIds st)" by (rule ids_ok_distinct)
  from ok have wf: "wf_state st" by (simp add: ids_ok_def)
  show "\<forall>b \<in> set (elements st).
            el_id (heap (snd (createElement parse opts st)) b) = el_id (heap st b)"
  proof
    fix b assume "b \<in> set (elements st)"
    with wf have "b \<noteq> next_addr st" by (auto simp add: wf_state_def)
    with createElement_core [of parse opts st b] show
      "el_id (heap (snd (createElement parse opts st)) b) = el_id (heap st b)"
      by (simp add: core_def)
  qed
  show "ids_ok (removeElement a st)" using ok by (rule ids_ok_removeElement)
  show "registryIds (removeElement a st)
          = (case indexOf (elements st) a of
               None \<Rightarrow> registryIds st
             | Some k \<Rightarrow> take k (registryIds st) @ drop (Suc k) (registryIds st))"
    by (rule removeElement_ids)
  show "ids_ok (snd (update parse st))" using ok by (simp add: ids_ok_update)
  show "registryIds (snd (update parse st)) = registryIds st" by (rule registryIds_update)
  show "ids_ok (handleScroll st)" using ok by (simp add: handleScroll_ids)
  show "registryIds (handleScroll st) = registryIds st" by (rule handleScroll_ids)
  show "ids_ok (snd (animationFrame st))" using ok by (simp add: animationFrame_ids)
  show "registryIds (snd (animationFrame st)) = registryIds st" by (rule animationFrame_ids)
  {
    assume none: "opt_id opts = None"
    show "ids_ok (snd (createElement parse opts st))"
      using ok none by (rule ids_ok_createElement(1))
    show "registryIds (snd (createElement parse opts st))
             = registryIds st @ [Some (id_count st + 1)]"
      using ok none by (rule ids_ok_createElement(2))
    show "\<forall>x \<in> set (registryIds st). \<exists>j. x = Some j \<and> j < id_count st + 1"
      using ok by (fastforce simp add: ids_ok_def)
    show "ids_ok (snd (updateElement parse i opts st))"
      using ok none by (rule ids_ok_updateElement)
    show "registryIds (snd (updateElement parse i opts st)) = registryIds st"
      using wf none by (rule updateElement_ids(1))
    show "\<forall>b \<in> set (elements st).
               el_id (heap (snd (updateElement parse i opts st)) b) = el_id (heap st b)"
      using wf none by (rule updateElement_ids(4))
  }
qed

text \<open>
  The fresh and the sample listener with the sample options, which carry no id: creating
  a second element gives the ids 1 and 2.
\<close>

theorem ids_unique_without_id_option_witness:
  "elements freshListener = [] \<and> ids_ok freshListener
   \<and> ids_ok sampleListener \<and> opt_id sampleOptions = None
   \<and> registryIds sampleListener = [Some 1]
   \<and> ids_ok (snd (createElement parseValueAndUnit sampleOptions sampleListener))
   \<and> registryIds (snd (createElement parseValueAndUnit sampleOptions sampleListener))
        = [Some 1, Some 2]
   \<and> ids_ok (snd (updateElement parseValueAndUnit 1 sampleOptions sampleListener))
   \<and> registryIds (snd (updateElement parseValueAndUnit 1 sampleOptions sampleListener)) = [Some 1]
   \<and> indexOf (elements sampleListener) 0 = Some 0
   \<and> ids_ok (removeElement 0 sampleListener)
   \<and> registryIds (removeElement 0 sampleListener) = []"
proof -
  have e: "elements freshListener = []" by (simp add: freshListener_def)
  have n: "opt_id sampleOptions = None" by (simp add: sampleOptions_def)
  have i: "indexOf (elements sampleListener) 0 = Some 0"
    by (simp add: indexOf_def sampleListener_eq)
  show ?thesis
    using ids_unique_without_id_option [of freshListener sampleListener sampleOptions
        parseValueAndUnit 1 0] e n i ids_ok_sample sample_ids
    by simp
qed

section \<open>Allocated references\<close>

text \<open>
  \<open>wf_state\<close> holds of a listener with an empty registry and every method keeps it
  (\<open>wf_createElement\<close>, \<open>wf_update\<close> above).
\<close>

lemma wf_updateElement:
  assumes "wf_state st"
  shows "wf_state (snd (updateElement parse i opts st))"
proof (cases "findIndex (\<lambda>a. el_id (heap st a) = Some i) (elements st)")
  case None
  show ?thesis
    unfolding updateElement_unknown_unfold [OF None]
    using assms by (auto simp add: update_elements wf_state_def intro: less_SucI)
next
  case (Some k)
  have "\<forall>b \<in> set ((elements st)[k := next_addr st]). b < next_addr st + 1"
  proof
    fix b assume "b \<in> set ((elements st)[k := next_addr st])"
    then have "b = next_addr st \<or> b \<in> set (elements st)"
      using set_update_subset_insert [of "elements st" k "next_addr st"] by auto
    with assms show "b < next_addr st + 1" by (auto simp add: wf_state_def intro: less_SucI)
  qed
  then show ?thesis
    unfolding updateElement_known_unfold [OF Some]
    by (simp add: update_elements wf_state_def)
qed

lemma wf_removeElement: "wf_state st \<Longrightarrow> wf_state (removeElement a st)"
  by (auto simp add: wf_state_def removeElement_def split: option.splits
      dest: in_set_takeD in_set_dropD)

lemma wf_handleScroll: "wf_state (handleScroll st) = wf_state st"
  by (simp add: wf_state_def handleScroll_def Let_def)

lemma wf_animationFrame: "wf_state (snd (animationFrame st)) = wf_state st"
proof -
  have "\<And>s. wf_state (snd (updateElementPositions s)) = wf_state s"
  proof -
    fix s
    obtain r s' where u: "forEach positionElement (elements s) s = (r, s')"
      by (cases "forEach positionElement (elements s) s")
    from forEach_position_frame [OF u] obtain x t where "s' = s\<lparr>ticking := t, style := x\<rparr>"
      by blast
    with u show "wf_state (snd (updateElementPositions s)) = wf_state s"
      by (simp add: updateElementPositions_def wf_state_def)
  qed
  then show ?thesis by (simp add: animationFrame_def wf_state_def)
qed

end
